theory Spec2Isabelle
  imports Main "HOL-Library.Word" "HOL-Library.Sublist"
begin

section \<open>Data model\<close>

text \<open>
  A result buffer is a \<open>Uint8Array\<close>: a list of bytes. The values that a prepared
  statement receives as parameters are JavaScript values.
\<close>

type_synonym buffer = "8 word list"

datatype js_value = JNull | JBool bool | JNum int | JStr string

text \<open>
  A thrown \<open>Error\<close> object, with its \<open>name\<close> and its \<open>message\<close>. What the bindings
  surface throws is taken to be such an object, so that \<open>e.message\<close> is a string.
\<close>

datatype js_error = JsError (ename: string) (message: string)

text \<open>\<open>new Error(msg)\<close>\<close>

definition new_Error :: "string \<Rightarrow> js_error" where
  "new_Error msg = JsError ''Error'' msg"

text \<open>What a call of the bindings surface does: it returns a value or throws.\<close>

datatype 'a reply = Returns 'a | Throws js_error

text \<open>How a promise (the result of an \<open>async\<close> method) settles.\<close>

datatype 'a outcome = Resolved 'a | Rejected js_error

text \<open>
  Everything the two connection classes do to the outside world, in the order in which
  they do it: the calls on the bindings object (with their arguments), the moment an
  awaited \<open>fetchQueryResults\<close> promise is consumed, and the console output.
\<close>

datatype event =
    LoggerLog string
  | StartPendingQuery nat string bool
  | IsDetached
  | PollPendingQuery nat
  | FetchQueryResults nat
  | FetchAwaited nat
  | SendPrepared nat nat "js_value list"
  | ConsoleError string
  | ConsoleLog js_error

text \<open>
  The bindings object (\<open>DuckDBBindings\<close>, \<open>AsyncDuckDB\<close>) is not part of these classes;
  it is a parameter. Its behaviour is given by what it answers: \<open>start_reply\<close> by the
  arguments of the call, the other operations by how many calls of that operation came
  before (\<open>poll_reply env k\<close> is the answer to the \<open>k\<close>-th \<open>pollPendingQuery\<close>, counted
  from 0). An absent answer (\<open>null\<close>) is \<open>None\<close>. \<open>calls\<close> is the log of events so far.
\<close>

record bindings =
  start_reply :: "nat \<Rightarrow> string \<Rightarrow> bool \<Rightarrow> buffer option reply"
  poll_reply :: "nat \<Rightarrow> buffer option reply"
  detached_reply :: "nat \<Rightarrow> bool"
  fetch_reply :: "nat \<Rightarrow> buffer option"
  prepared_reply :: "nat \<Rightarrow> nat \<Rightarrow> js_value list \<Rightarrow> buffer reply"
  calls :: "event list"

fun is_poll :: "event \<Rightarrow> bool" where
  "is_poll (PollPendingQuery c) = True"
| "is_poll e = False"

fun is_detached_check :: "event \<Rightarrow> bool" where
  "is_detached_check IsDetached = True"
| "is_detached_check e = False"

fun is_fetch :: "event \<Rightarrow> bool" where
  "is_fetch (FetchQueryResults c) = True"
| "is_fetch e = False"

fun is_await :: "event \<Rightarrow> bool" where
  "is_await (FetchAwaited c) = True"
| "is_await e = False"

definition polls :: "bindings \<Rightarrow> nat" where
  "polls env = length (filter is_poll (calls env))"

definition detached_checks :: "bindings \<Rightarrow> nat" where
  "detached_checks env = length (filter is_detached_check (calls env))"

definition fetches :: "bindings \<Rightarrow> nat" where
  "fetches env = length (filter is_fetch (calls env))"

definition emit :: "event \<Rightarrow> bindings \<Rightarrow> bindings" where
  "emit e env = env\<lparr>calls := calls env @ [e]\<rparr>"

subsection \<open>The operations of the bindings surface\<close>

definition startPendingQuery ::
  "nat \<Rightarrow> string \<Rightarrow> bool \<Rightarrow> bindings \<Rightarrow> buffer option reply \<times> bindings" where
  "startPendingQuery c text allowStreamResult env =
     (start_reply env c text allowStreamResult,
      emit (StartPendingQuery c text allowStreamResult) env)"

definition pollPendingQuery :: "nat \<Rightarrow> bindings \<Rightarrow> buffer option reply \<times> bindings" where
  "pollPendingQuery c env = (poll_reply env (polls env), emit (PollPendingQuery c) env)"

definition isDetached :: "bindings \<Rightarrow> bool \<times> bindings" where
  "isDetached env = (detached_reply env (detached_checks env), emit IsDetached env)"

definition fetchQueryResults :: "nat \<Rightarrow> bindings \<Rightarrow> buffer option \<times> bindings" where
  "fetchQueryResults c env = (fetch_reply env (fetches env), emit (FetchQueryResults c) env)"

definition sendPrepared ::
  "nat \<Rightarrow> nat \<Rightarrow> js_value list \<Rightarrow> bindings \<Rightarrow> buffer reply \<times> bindings" where
  "sendPrepared c s params env = (prepared_reply env c s params, emit (SendPrepared c s params) env)"

subsection \<open>The iterators\<close>

text \<open>
  \<open>ResultStreamIterator\<close> has the fields \<open>conn\<close>, \<open>header\<close>, \<open>_first\<close> and \<open>_depleted\<close>;
  \<open>AsyncResultStreamIterator\<close> has \<open>_inFlight\<close> in addition: \<open>None\<close> is \<open>null\<close>, and
  \<open>Some r\<close> is the promise of a \<open>fetchQueryResults\<close> call that resolves to \<open>r\<close>.
\<close>

record ResultStreamIterator =
  conn :: nat
  header :: buffer
  first :: bool
  depleted :: bool

record AsyncResultStreamIterator = ResultStreamIterator +
  inFlight :: "buffer option option"

text \<open>An \<open>IteratorResult\<close>: \<open>{ done, value }\<close>, where the value may be \<open>null\<close>.\<close>

datatype iterator_result = IteratorResult (is_done: bool) (payload: "buffer option")

text \<open>The constructors.\<close>

definition new_ResultStreamIterator :: "nat \<Rightarrow> buffer \<Rightarrow> ResultStreamIterator" where
  "new_ResultStreamIterator c h = \<lparr>conn = c, header = h, first = True, depleted = False\<rparr>"

definition new_AsyncResultStreamIterator :: "nat \<Rightarrow> buffer \<Rightarrow> AsyncResultStreamIterator" where
  "new_AsyncResultStreamIterator c h =
     \<lparr>conn = c, header = h, first = True, depleted = False, inFlight = None\<rparr>"

text \<open>
  What \<open>AsyncDuckDBConnection.send\<close> resolves to: an iterator, or \<open>undefined\<close>
  (\<open>return undefined as any\<close>).
\<close>

datatype 'it stream_or_undefined = Undefined | Stream 'it

section \<open>AsyncDuckDBConnection.send\<close>

text \<open>
  The loop \<open>while (header == null)\<close> of \<open>AsyncDuckDBConnection.send\<close>. It has no bound:
  the result \<open>None\<close> is a loop that never ends.
\<close>

partial_function (option) AsyncDuckDBConnection_send_loop ::
  "nat \<Rightarrow> buffer option \<Rightarrow> bindings
     \<Rightarrow> (AsyncResultStreamIterator stream_or_undefined outcome \<times> bindings) option" where
  "AsyncDuckDBConnection_send_loop c hdr env =
     (case hdr of
        Some h \<Rightarrow> Some (Resolved (Stream (new_AsyncResultStreamIterator c h)), env)
      | None \<Rightarrow>
          (case isDetached env of
             (d, env1) \<Rightarrow>
               if d then
                 Some (Resolved Undefined,
                       emit (ConsoleError ''cannot send a message since the worker is not set!'') env1)
               else
                 (case pollPendingQuery c env1 of
                    (Throws e, env2) \<Rightarrow> Some (Rejected e, env2)
                  | (Returns hdr', env2) \<Rightarrow> AsyncDuckDBConnection_send_loop c hdr' env2)))"

text \<open>
  \<open>send(text, allowStreamResult = false)\<close>: an omitted argument is \<open>None\<close>.
\<close>

definition AsyncDuckDBConnection_send ::
  "nat \<Rightarrow> string \<Rightarrow> bool option \<Rightarrow> bindings
     \<Rightarrow> (AsyncResultStreamIterator stream_or_undefined outcome \<times> bindings) option" where
  "AsyncDuckDBConnection_send c text allowStreamResult env =
     (let allow = (case allowStreamResult of None \<Rightarrow> False | Some b \<Rightarrow> b);
          env0 = emit (LoggerLog text) env
      in case startPendingQuery c text allow env0 of
           (Throws e, env1) \<Rightarrow> Some (Rejected e, env1)
         | (Returns hdr, env1) \<Rightarrow> AsyncDuckDBConnection_send_loop c hdr env1)"

section \<open>DuckDBConnection.send\<close>

text \<open>\<open>s.includes(needle)\<close>: \<open>needle\<close> occurs in \<open>s\<close> as a contiguous run of characters.\<close>

fun includes_str :: "string \<Rightarrow> string \<Rightarrow> bool" where
  "includes_str [] needle = (needle = [])"
| "includes_str (c # cs) needle = (prefix needle (c # cs) \<or> includes_str cs needle)"

text \<open>
  The loop \<open>while (header == null)\<close> of \<open>DuckDBConnection.send\<close>: each round polls
  inside a promise whose executor catches what \<open>pollPendingQuery\<close> throws, logs it, and
  rejects.
\<close>

partial_function (option) DuckDBConnection_send_loop ::
  "nat \<Rightarrow> buffer option \<Rightarrow> bindings \<Rightarrow> (ResultStreamIterator outcome \<times> bindings) option" where
  "DuckDBConnection_send_loop c hdr env =
     (case hdr of
        Some h \<Rightarrow> Some (Resolved (new_ResultStreamIterator c h), env)
      | None \<Rightarrow>
          (case pollPendingQuery c env of
             (Returns hdr', env1) \<Rightarrow> DuckDBConnection_send_loop c hdr' env1
           | (Throws e, env1) \<Rightarrow>
               (let env2 = emit (ConsoleLog e) env1
                in if includes_str (message e) ''worker is not set!''
                   then Some (Rejected (new_Error ''Worker has been terminated''), env2)
                   else Some (Rejected e, env2))))"

definition DuckDBConnection_send ::
  "nat \<Rightarrow> string \<Rightarrow> bool option \<Rightarrow> bindings
     \<Rightarrow> (ResultStreamIterator outcome \<times> bindings) option" where
  "DuckDBConnection_send c text allowStreamResult env =
     (let allow = (case allowStreamResult of None \<Rightarrow> False | Some b \<Rightarrow> b)
      in case startPendingQuery c text allow env of
           (Throws e, env1) \<Rightarrow> Some (Rejected e, env1)
         | (Returns hdr, env1) \<Rightarrow> DuckDBConnection_send_loop c hdr env1)"

section \<open>ResultStreamIterator.next\<close>

text \<open>The loop \<open>do { bufferI8 = fetchQueryResults(conn) } while (bufferI8 == null)\<close>.\<close>

partial_function (option) fetch_loop :: "nat \<Rightarrow> bindings \<Rightarrow> (buffer \<times> bindings) option" where
  "fetch_loop c env =
     (case fetchQueryResults c env of
        (None, env1) \<Rightarrow> fetch_loop c env1
      | (Some b, env1) \<Rightarrow> Some (b, env1))"

definition ResultStreamIterator_next ::
  "ResultStreamIterator \<Rightarrow> bindings
     \<Rightarrow> (iterator_result \<times> ResultStreamIterator \<times> bindings) option" where
  "ResultStreamIterator_next it env =
     (if first it then Some (IteratorResult False (Some (header it)), it\<lparr>first := False\<rparr>, env)
      else if depleted it then Some (IteratorResult True None, it, env)
      else
        (case fetch_loop (conn it) env of
           None \<Rightarrow> None
         | Some (b, env1) \<Rightarrow>
             (let it1 = it\<lparr>depleted := (length b = 0)\<rparr>
              in Some (IteratorResult (depleted it1) (Some b), it1, env1))))"

section \<open>AsyncResultStreamIterator.next\<close>

text \<open>
  The loop \<open>while (buffer == null) { buffer = await fetchQueryResults(conn) }\<close>: each
  round issues a fetch and awaits it at once.
\<close>

partial_function (option) async_fetch_loop ::
  "nat \<Rightarrow> buffer option \<Rightarrow> bindings \<Rightarrow> (buffer \<times> bindings) option" where
  "async_fetch_loop c buf env =
     (case buf of
        Some b \<Rightarrow> Some (b, env)
      | None \<Rightarrow>
          (case fetchQueryResults c env of
             (r, env1) \<Rightarrow> async_fetch_loop c r (emit (FetchAwaited c) env1)))"

definition AsyncResultStreamIterator_next ::
  "AsyncResultStreamIterator \<Rightarrow> bindings
     \<Rightarrow> (iterator_result \<times> AsyncResultStreamIterator \<times> bindings) option" where
  "AsyncResultStreamIterator_next it env =
     (if first it then Some (IteratorResult False (Some (header it)), it\<lparr>first := False\<rparr>, env)
      else if depleted it then Some (IteratorResult True None, it, env)
      else
        (case (case inFlight it of
                 None \<Rightarrow> (None, it, env)
               | Some p \<Rightarrow> (p, it\<lparr>inFlight := None\<rparr>, emit (FetchAwaited (conn it)) env)) of
           (buf, it1, env1) \<Rightarrow>
             (case async_fetch_loop (conn it1) buf env1 of
                None \<Rightarrow> None
              | Some (b, env2) \<Rightarrow>
                  (let it2 = it1\<lparr>depleted := (length b = 0)\<rparr>
                   in if \<not> depleted it2
                      then (case fetchQueryResults (conn it2) env2 of
                              (p, env3) \<Rightarrow>
                                Some (IteratorResult (depleted it2) (Some b),
                                      it2\<lparr>inFlight := Some p\<rparr>, env3))
                      else Some (IteratorResult (depleted it2) (Some b), it2, env2)))))"

subsection \<open>next, from one await to the following\<close>

text \<open>
  \<open>next\<close> is an \<open>async\<close> method: a call runs until its first \<open>await\<close> and gives control
  back; it goes on when the awaited promise has settled, until the following \<open>await\<close> or
  its \<open>return\<close>. Between two such runs another call of \<open>next\<close> on the same iterator can
  start. The functions below are \<open>AsyncResultStreamIterator.next\<close> again, cut at its
  \<open>await\<close>s. The fields of the iterator are shared by the calls; the variable \<open>buffer\<close>
  belongs to one call.

  A call that waits: for the promise it found in \<open>_inFlight\<close>, or for the fetch it has
  issued in the loop; with the value that this promise resolves to.
\<close>

datatype waiting = AwaitInFlight "buffer option" | AwaitFetch "buffer option"

datatype progress = Finished iterator_result | Waiting waiting

text \<open>The end of \<open>next\<close>, from \<open>this._depleted = buffer.length == 0\<close> on.\<close>

definition async_next_tail ::
  "buffer \<Rightarrow> AsyncResultStreamIterator \<Rightarrow> bindings
     \<Rightarrow> iterator_result \<times> AsyncResultStreamIterator \<times> bindings" where
  "async_next_tail b it env =
     (let it2 = it\<lparr>depleted := (length b = 0)\<rparr>
      in if \<not> depleted it2
         then (case fetchQueryResults (conn it2) env of
                 (p, env3) \<Rightarrow>
                   (IteratorResult (depleted it2) (Some b), it2\<lparr>inFlight := Some p\<rparr>, env3))
         else (IteratorResult (depleted it2) (Some b), it2, env))"

text \<open>
  The test of \<open>while (buffer == null)\<close>: with no buffer, the call issues a fetch and waits
  for it; with a buffer, it runs to its end.
\<close>

definition async_next_loop ::
  "buffer option \<Rightarrow> AsyncResultStreamIterator \<Rightarrow> bindings
     \<Rightarrow> progress \<times> AsyncResultStreamIterator \<times> bindings" where
  "async_next_loop buf it env =
     (case buf of
        None \<Rightarrow>
          (case fetchQueryResults (conn it) env of
             (r, env1) \<Rightarrow> (Waiting (AwaitFetch r), it, env1))
      | Some b \<Rightarrow>
          (case async_next_tail b it env of
             (res, it', env') \<Rightarrow> (Finished res, it', env')))"

text \<open>A call of \<open>next\<close>, up to its first \<open>await\<close>.\<close>

definition async_next_begin ::
  "AsyncResultStreamIterator \<Rightarrow> bindings
     \<Rightarrow> progress \<times> AsyncResultStreamIterator \<times> bindings" where
  "async_next_begin it env =
     (if first it
      then (Finished (IteratorResult False (Some (header it))), it\<lparr>first := False\<rparr>, env)
      else if depleted it then (Finished (IteratorResult True None), it, env)
      else
        (case inFlight it of
           Some p \<Rightarrow> (Waiting (AwaitInFlight p), it, env)
         | None \<Rightarrow> async_next_loop None it env))"

text \<open>A waiting call goes on, up to its following \<open>await\<close> or its end.\<close>

definition async_next_resume ::
  "waiting \<Rightarrow> AsyncResultStreamIterator \<Rightarrow> bindings
     \<Rightarrow> progress \<times> AsyncResultStreamIterator \<times> bindings" where
  "async_next_resume w it env =
     (case w of
        AwaitInFlight p \<Rightarrow>
          async_next_loop p (it\<lparr>inFlight := None\<rparr>) (emit (FetchAwaited (conn it)) env)
      | AwaitFetch r \<Rightarrow>
          async_next_loop r it (emit (FetchAwaited (conn it)) env))"

text \<open>A call that goes on alone until it returns.\<close>

partial_function (option) async_next_finish ::
  "progress \<Rightarrow> AsyncResultStreamIterator \<Rightarrow> bindings
     \<Rightarrow> (iterator_result \<times> AsyncResultStreamIterator \<times> bindings) option" where
  "async_next_finish p it env =
     (case p of
        Finished res \<Rightarrow> Some (res, it, env)
      | Waiting w \<Rightarrow>
          (case async_next_resume w it env of
             (p', it', env') \<Rightarrow> async_next_finish p' it' env'))"

section \<open>Prepared statements\<close>

record PreparedStatement =
  connectionId :: nat
  statementId :: nat

text \<open>\<open>PreparedStatement.send\<close> is not \<open>async\<close>: it returns or throws.\<close>

definition PreparedStatement_send ::
  "PreparedStatement \<Rightarrow> js_value list \<Rightarrow> bindings \<Rightarrow> ResultStreamIterator reply \<times> bindings" where
  "PreparedStatement_send st params env =
     (case sendPrepared (connectionId st) (statementId st) params env of
        (Throws e, env1) \<Rightarrow> (Throws e, env1)
      | (Returns h, env1) \<Rightarrow> (Returns (new_ResultStreamIterator (connectionId st) h), env1))"

definition AsyncPreparedStatement_send ::
  "PreparedStatement \<Rightarrow> js_value list \<Rightarrow> bindings
     \<Rightarrow> AsyncResultStreamIterator outcome \<times> bindings" where
  "AsyncPreparedStatement_send st params env =
     (case sendPrepared (connectionId st) (statementId st) params env of
        (Throws e, env1) \<Rightarrow> (Rejected e, env1)
      | (Returns h, env1) \<Rightarrow> (Resolved (new_AsyncResultStreamIterator (connectionId st) h), env1))"

section \<open>Draining an iterator\<close>



text \<open>
  \<open>next_times n\<close> and \<open>async_next_times n\<close>: \<open>n\<close> calls of \<open>next\<close>, one after the other, whatever
  they return; the results are collected in order.
\<close>

fun next_times ::
  "nat \<Rightarrow> ResultStreamIterator \<Rightarrow> bindings
     \<Rightarrow> (iterator_result list \<times> ResultStreamIterator \<times> bindings) option" where
  "next_times 0 it env = Some ([], it, env)"
| "next_times (Suc n) it env =
     (case ResultStreamIterator_next it env of
        None \<Rightarrow> None
      | Some (r, it1, env1) \<Rightarrow>
          (case next_times n it1 env1 of
             None \<Rightarrow> None
           | Some (rs, it2, env2) \<Rightarrow> Some (r # rs, it2, env2)))"

fun async_next_times ::
  "nat \<Rightarrow> AsyncResultStreamIterator \<Rightarrow> bindings
     \<Rightarrow> (iterator_result list \<times> AsyncResultStreamIterator \<times> bindings) option" where
  "async_next_times 0 it env = Some ([], it, env)"
| "async_next_times (Suc n) it env =
     (case AsyncResultStreamIterator_next it env of
        None \<Rightarrow> None
      | Some (r, it1, env1) \<Rightarrow>
          (case async_next_times n it1 env1 of
             None \<Rightarrow> None
           | Some (rs, it2, env2) \<Rightarrow> Some (r # rs, it2, env2)))"

section \<open>Notions used in the statements\<close>

text \<open>Whether a promise was rejected, that is, whether the caller sees a failure.\<close>

fun is_rejected :: "'a outcome \<Rightarrow> bool" where
  "is_rejected (Rejected e) = True"
| "is_rejected (Resolved x) = False"

text \<open>
  The answers that an \<open>AsyncResultStreamIterator\<close> will consume, in order: the one it holds
  in flight, if any, and then the answers to the fetches it has not issued yet.
\<close>

definition pending :: "AsyncResultStreamIterator \<Rightarrow> bindings \<Rightarrow> nat \<Rightarrow> buffer option" where
  "pending it env k =
     (case inFlight it of
        None \<Rightarrow> fetch_reply env (fetches env + k)
      | Some p \<Rightarrow> if k = 0 then p else fetch_reply env (fetches env + k - 1))"

text \<open>The number of fetches that an \<open>AsyncResultStreamIterator\<close> holds in flight: 0 or 1.\<close>

definition held :: "AsyncResultStreamIterator \<Rightarrow> nat" where
  "held it = (case inFlight it of None \<Rightarrow> 0 | Some p \<Rightarrow> 1)"

text \<open>
  The number of fetches of a log that are outstanding at its end: issued and not yet awaited.
\<close>

definition outstanding :: "event list \<Rightarrow> int" where
  "outstanding es = int (length (filter is_fetch es)) - int (length (filter is_await es))"

text \<open>
  The running count of outstanding fetches along a log, starting from \<open>k\<close>: \<open>None\<close> as soon
  as a fetch is issued while another one is outstanding, or one is awaited while none is.
\<close>

fun track :: "nat \<Rightarrow> event list \<Rightarrow> nat option" where
  "track k [] = Some k"
| "track k (e # es) =
     (if is_fetch e then (if k = 0 then track 1 es else None)
      else if is_await e then (if k = 1 then track 0 es else None)
      else track k es)"

section \<open>Concrete bindings\<close>

text \<open>\<open>script xs d\<close> answers the \<open>k\<close>-th call with \<open>xs ! k\<close>, and with \<open>d\<close> once \<open>xs\<close> is used up.\<close>

definition script :: "'a list \<Rightarrow> 'a \<Rightarrow> nat \<Rightarrow> 'a" where
  "script xs d k = (if k < length xs then xs ! k else d)"

text \<open>Bindings on which nothing is ever ready, and which are never detached.\<close>

definition idle_bindings :: bindings where
  "idle_bindings =
     \<lparr>start_reply = (\<lambda>c text allow. Returns None),
      poll_reply = (\<lambda>k. Returns None),
      detached_reply = (\<lambda>k. False),
      fetch_reply = (\<lambda>k. None),
      prepared_reply = (\<lambda>c s params. Returns []),
      calls = []\<rparr>"

definition hdr10 :: buffer where
  "hdr10 = replicate 10 0"

definition chunk20 :: buffer where
  "chunk20 = replicate 20 1"

text \<open>Scenario A: the two fetches return a 20-byte and then a 0-byte buffer.\<close>

definition scenario_A :: bindings where
  "scenario_A = idle_bindings\<lparr>fetch_reply := script [Some chunk20, Some []] None\<rparr>"

text \<open>The same, with an absent answer before each buffer.\<close>

definition scenario_A_slow :: bindings where
  "scenario_A_slow = idle_bindings\<lparr>fetch_reply := script [None, Some chunk20, None, Some []] None\<rparr>"

text \<open>Scenario B: the start and the first poll are absent, the second poll returns the header.\<close>

definition scenario_B :: bindings where
  "scenario_B = idle_bindings\<lparr>poll_reply := script [Returns None, Returns (Some hdr10)] (Returns None)\<rparr>"

text \<open>Scenario C: the link is found detached after one poll, with no header yet.\<close>

definition scenario_C :: bindings where
  "scenario_C = idle_bindings\<lparr>detached_reply := script [False] True\<rparr>"

text \<open>The second poll throws the error of a worker that is gone.\<close>

definition worker_gone :: js_error where
  "worker_gone = JsError ''Error'' ''cannot send a message since the worker is not set!''"

definition scenario_gone :: bindings where
  "scenario_gone = idle_bindings\<lparr>poll_reply := script [Returns None, Throws worker_gone] (Returns None)\<rparr>"

text \<open>The second poll throws another error.\<close>

definition parser_error :: js_error where
  "parser_error = JsError ''Error'' ''Parser Error: syntax error at end of input''"

definition scenario_rejected :: bindings where
  "scenario_rejected = idle_bindings\<lparr>poll_reply := script [Returns None, Throws parser_error] (Returns None)\<rparr>"

text \<open>A prepared statement whose header is ready.\<close>

definition scenario_prepared :: bindings where
  "scenario_prepared = idle_bindings\<lparr>prepared_reply := (\<lambda>c s params. Returns hdr10)\<rparr>"

section \<open>Basic facts\<close>

lemma calls_emit [simp]: "calls (emit e env) = calls env @ [e]"
  by (simp add: emit_def)

lemma replies_emit [simp]:
  "start_reply (emit e env) = start_reply env"
  "poll_reply (emit e env) = poll_reply env"
  "detached_reply (emit e env) = detached_reply env"
  "fetch_reply (emit e env) = fetch_reply env"
  "prepared_reply (emit e env) = prepared_reply env"
  by (simp_all add: emit_def)

lemma polls_emit [simp]:
  "polls (emit e env) = (if is_poll e then Suc (polls env) else polls env)"
  by (simp add: polls_def)

lemma detached_checks_emit [simp]:
  "detached_checks (emit e env) =
     (if is_detached_check e then Suc (detached_checks env) else detached_checks env)"
  by (simp add: detached_checks_def)

lemma fetches_emit [simp]:
  "fetches (emit e env) = (if is_fetch e then Suc (fetches env) else fetches env)"
  by (simp add: fetches_def)

lemma includes_str_sublist: "includes_str s needle = sublist needle s"
  by (induction s) (auto simp: sublist_Cons_right)

section \<open>The polling loop of DuckDBConnection.send\<close>

lemma send_loop_header:
  "DuckDBConnection_send_loop c (Some h) env = Some (Resolved (new_ResultStreamIterator c h), env)"
  by (subst DuckDBConnection_send_loop.simps) simp

lemma send_loop_absent:
  "poll_reply env (polls env) = Returns hdr \<Longrightarrow>
   DuckDBConnection_send_loop c None env = DuckDBConnection_send_loop c hdr (emit (PollPendingQuery c) env)"
  by (subst DuckDBConnection_send_loop.simps) (simp add: pollPendingQuery_def)

lemma send_loop_throws:
  "poll_reply env (polls env) = Throws e \<Longrightarrow>
   DuckDBConnection_send_loop c None env =
     Some (Rejected (if includes_str (message e) ''worker is not set!''
                     then new_Error ''Worker has been terminated'' else e),
           emit (ConsoleLog e) (emit (PollPendingQuery c) env))"
  by (subst DuckDBConnection_send_loop.simps) (simp add: pollPendingQuery_def Let_def)

lemma send_loop_polls:
  "(\<forall>j<k. poll_reply env (polls env + j) = Returns None) \<Longrightarrow>
   DuckDBConnection_send_loop c None env =
   DuckDBConnection_send_loop c None (env\<lparr>calls := calls env @ replicate k (PollPendingQuery c)\<rparr>)"
proof (induction k arbitrary: env)
  case 0
  then show ?case by simp
next
  case (Suc k)
  let ?env1 = "emit (PollPendingQuery c) env"
  from Suc.prems have a: "poll_reply env (polls env) = Returns None" by auto
  have "\<forall>j<k. poll_reply ?env1 (polls ?env1 + j) = Returns None" using Suc.prems by auto
  then have "DuckDBConnection_send_loop c None ?env1 =
     DuckDBConnection_send_loop c None (?env1\<lparr>calls := calls ?env1 @ replicate k (PollPendingQuery c)\<rparr>)"
    by (rule Suc.IH)
  then show ?case using a by (simp add: send_loop_absent emit_def replicate_app_Cons_same)
qed

text \<open>
  C5. In \<open>DuckDBConnection.send\<close>, when \<open>startPendingQuery\<close> and the first \<open>k\<close> polls return
  absent and the next \<open>pollPendingQuery\<close> throws \<open>e\<close>: the call is logged to the console and
  \<open>send\<close> is rejected, with a new error \<open>Worker has been terminated\<close>, which is not \<open>e\<close>, when
  the message of \<open>e\<close> includes \<open>worker is not set!\<close>, and with \<open>e\<close> itself otherwise.
\<close>

theorem send_poll_error_normalized:
  assumes "start_reply env c text (case a of None \<Rightarrow> False | Some b \<Rightarrow> b) = Returns None"
    and "\<forall>j<k. poll_reply env (polls env + j) = Returns None"
    and "poll_reply env (polls env + k) = Throws e"
  shows "DuckDBConnection_send c text a env =
           Some (Rejected (if includes_str (message e) ''worker is not set!''
                           then new_Error ''Worker has been terminated'' else e),
                 env\<lparr>calls := calls env @ StartPendingQuery c text (case a of None \<Rightarrow> False | Some b \<Rightarrow> b)
                          # replicate (Suc k) (PollPendingQuery c) @ [ConsoleLog e]\<rparr>)
         \<and> (includes_str (message e) ''worker is not set!'' \<longrightarrow> new_Error ''Worker has been terminated'' \<noteq> e)"
proof -
  let ?al = "case a of None \<Rightarrow> False | Some b \<Rightarrow> b"
  let ?env1 = "emit (StartPendingQuery c text ?al) env"
  let ?env2 = "?env1\<lparr>calls := calls ?env1 @ replicate k (PollPendingQuery c)\<rparr>"
  have p0: "\<forall>j<k. poll_reply ?env1 (polls ?env1 + j) = Returns None" using assms(2) by simp
  have "DuckDBConnection_send c text a env = DuckDBConnection_send_loop c None ?env1"
    using assms(1) by (simp add: DuckDBConnection_send_def startPendingQuery_def)
  also have "\<dots> = DuckDBConnection_send_loop c None ?env2"
    using p0 by (rule send_loop_polls)
  also have "\<dots> = Some (Rejected (if includes_str (message e) ''worker is not set!''
                     then new_Error ''Worker has been terminated'' else e),
           emit (ConsoleLog e) (emit (PollPendingQuery c) ?env2))"
  proof (rule send_loop_throws)
    have "polls ?env2 = polls env + k" by (simp add: polls_def)
    then show "poll_reply ?env2 (polls ?env2) = Throws e" using assms(3) by simp
  qed
  finally have 1: "DuckDBConnection_send c text a env = Some (Rejected (if includes_str (message e) ''worker is not set!''
                     then new_Error ''Worker has been terminated'' else e),
           emit (ConsoleLog e) (emit (PollPendingQuery c) ?env2))" .
  have 2: "emit (ConsoleLog e) (emit (PollPendingQuery c) ?env2) = env\<lparr>calls := calls env @ StartPendingQuery c text ?al
                          # replicate (Suc k) (PollPendingQuery c) @ [ConsoleLog e]\<rparr>"
    by (simp add: emit_def replicate_append_same)
  have 3: "includes_str (message e) ''worker is not set!'' \<longrightarrow> new_Error ''Worker has been terminated'' \<noteq> e"
    by (auto simp: new_Error_def)
  show ?thesis using 1 2 3 by simp
qed

theorem send_poll_error_normalized_witness:
  "DuckDBConnection_send 1 ''SELECT 1'' None scenario_gone =
     Some (Rejected (new_Error ''Worker has been terminated''),
           scenario_gone\<lparr>calls := [StartPendingQuery 1 ''SELECT 1'' False, PollPendingQuery 1,
              PollPendingQuery 1, ConsoleLog worker_gone]\<rparr>)
   \<and> new_Error ''Worker has been terminated'' \<noteq> worker_gone
   \<and> DuckDBConnection_send 1 ''SELEC'' None scenario_rejected =
     Some (Rejected parser_error,
           scenario_rejected\<lparr>calls := [StartPendingQuery 1 ''SELEC'' False, PollPendingQuery 1,
              PollPendingQuery 1, ConsoleLog parser_error]\<rparr>)"
proof -
  have a: "start_reply scenario_gone 1 ''SELECT 1'' (case None of None \<Rightarrow> False | Some b \<Rightarrow> b)
             = Returns None"
    by (simp add: scenario_gone_def idle_bindings_def)
  have b: "\<forall>j<1. poll_reply scenario_gone (polls scenario_gone + j) = Returns None"
    by (simp add: scenario_gone_def idle_bindings_def script_def polls_def)
  have c: "poll_reply scenario_gone (polls scenario_gone + 1) = Throws worker_gone"
    by (simp add: scenario_gone_def idle_bindings_def script_def polls_def)
  have d: "includes_str (message worker_gone) ''worker is not set!''"
    by (simp add: worker_gone_def)
  have e: "calls scenario_gone = []" by (simp add: scenario_gone_def idle_bindings_def)
  have a': "start_reply scenario_rejected 1 ''SELEC'' (case None of None \<Rightarrow> False | Some b \<Rightarrow> b)
             = Returns None"
    by (simp add: scenario_rejected_def idle_bindings_def)
  have b': "\<forall>j<1. poll_reply scenario_rejected (polls scenario_rejected + j) = Returns None"
    by (simp add: scenario_rejected_def idle_bindings_def script_def polls_def)
  have c': "poll_reply scenario_rejected (polls scenario_rejected + 1) = Throws parser_error"
    by (simp add: scenario_rejected_def idle_bindings_def script_def polls_def)
  have d': "\<not> includes_str (message parser_error) ''worker is not set!''"
    by (simp add: parser_error_def)
  have e': "calls scenario_rejected = []" by (simp add: scenario_rejected_def idle_bindings_def)
  show ?thesis
    using send_poll_error_normalized [OF a b c] d e send_poll_error_normalized [OF a' b' c'] d' e'
    by (simp add: numeral_eq_Suc)
qed

section \<open>The polling loop of AsyncDuckDBConnection.send\<close>

lemma async_send_loop_header:
  "AsyncDuckDBConnection_send_loop c (Some h) env =
     Some (Resolved (Stream (new_AsyncResultStreamIterator c h)), env)"
  by (subst AsyncDuckDBConnection_send_loop.simps) simp

lemma async_send_loop_detached:
  "detached_reply env (detached_checks env) \<Longrightarrow>
   AsyncDuckDBConnection_send_loop c None env =
     Some (Resolved Undefined,
           emit (ConsoleError ''cannot send a message since the worker is not set!'')
             (emit IsDetached env))"
  by (subst AsyncDuckDBConnection_send_loop.simps) (simp add: isDetached_def)

lemma async_send_loop_poll:
  "\<not> detached_reply env (detached_checks env) \<Longrightarrow> poll_reply env (polls env) = Returns hdr \<Longrightarrow>
   AsyncDuckDBConnection_send_loop c None env =
     AsyncDuckDBConnection_send_loop c hdr (emit (PollPendingQuery c) (emit IsDetached env))"
  by (subst AsyncDuckDBConnection_send_loop.simps) (simp add: isDetached_def pollPendingQuery_def)

lemma async_send_loop_throws:
  "\<not> detached_reply env (detached_checks env) \<Longrightarrow> poll_reply env (polls env) = Throws e \<Longrightarrow>
   AsyncDuckDBConnection_send_loop c None env =
     Some (Rejected e, emit (PollPendingQuery c) (emit IsDetached env))"
  by (subst AsyncDuckDBConnection_send_loop.simps) (simp add: isDetached_def pollPendingQuery_def)

lemma async_send_loop_polls:
  "(\<forall>j<k. \<not> detached_reply env (detached_checks env + j)) \<Longrightarrow>
   (\<forall>j<k. poll_reply env (polls env + j) = Returns None) \<Longrightarrow>
   AsyncDuckDBConnection_send_loop c None env =
   AsyncDuckDBConnection_send_loop c None
     (env\<lparr>calls := calls env @ concat (replicate k [IsDetached, PollPendingQuery c])\<rparr>)"
proof (induction k arbitrary: env)
  case 0
  then show ?case by simp
next
  case (Suc k)
  let ?env1 = "emit (PollPendingQuery c) (emit IsDetached env)"
  from Suc.prems have a: "\<not> detached_reply env (detached_checks env)"
    and b: "poll_reply env (polls env) = Returns None" by auto
  have "\<forall>j<k. \<not> detached_reply ?env1 (detached_checks ?env1 + j)" using Suc.prems(1) by auto
  moreover have "\<forall>j<k. poll_reply ?env1 (polls ?env1 + j) = Returns None" using Suc.prems(2) by auto
  ultimately have "AsyncDuckDBConnection_send_loop c None ?env1 =
     AsyncDuckDBConnection_send_loop c None
       (?env1\<lparr>calls := calls ?env1 @ concat (replicate k [IsDetached, PollPendingQuery c])\<rparr>)"
    by (rule Suc.IH)
  then show ?case using a b by (simp add: async_send_loop_poll emit_def)
qed

lemma async_send_detached:
  assumes "start_reply env c text (case a of None \<Rightarrow> False | Some b \<Rightarrow> b) = Returns None"
    and "\<forall>j<k. poll_reply env (polls env + j) = Returns None"
    and "\<forall>j<k. \<not> detached_reply env (detached_checks env + j)"
    and "detached_reply env (detached_checks env + k)"
  shows "AsyncDuckDBConnection_send c text a env =
           Some (Resolved Undefined,
                 env\<lparr>calls := calls env
                    @ [LoggerLog text, StartPendingQuery c text (case a of None \<Rightarrow> False | Some b \<Rightarrow> b)]
                    @ concat (replicate k [IsDetached, PollPendingQuery c])
                    @ [IsDetached, ConsoleError ''cannot send a message since the worker is not set!'']\<rparr>)"
proof -
  let ?al = "case a of None \<Rightarrow> False | Some b \<Rightarrow> b"
  let ?env1 = "emit (StartPendingQuery c text ?al) (emit (LoggerLog text) env)"
  let ?env2 = "?env1\<lparr>calls := calls ?env1 @ concat (replicate k [IsDetached, PollPendingQuery c])\<rparr>"
  have p0: "\<forall>j<k. poll_reply ?env1 (polls ?env1 + j) = Returns None" using assms(2) by simp
  have d0: "\<forall>j<k. \<not> detached_reply ?env1 (detached_checks ?env1 + j)" using assms(3) by simp
  have "AsyncDuckDBConnection_send c text a env = AsyncDuckDBConnection_send_loop c None ?env1"
    using assms(1) by (simp add: AsyncDuckDBConnection_send_def startPendingQuery_def)
  also have "\<dots> = AsyncDuckDBConnection_send_loop c None ?env2"
    using d0 p0 by (rule async_send_loop_polls)
  also have "\<dots> = Some (Resolved Undefined,
           emit (ConsoleError ''cannot send a message since the worker is not set!'')
             (emit IsDetached ?env2))"
  proof (rule async_send_loop_detached)
    have "detached_checks ?env2 = detached_checks env + k"
      by (induction k) (simp_all add: detached_checks_def)
    then show "detached_reply ?env2 (detached_checks ?env2)" using assms(4) by simp
  qed
  finally show ?thesis by (simp add: emit_def)
qed

lemma async_send_loop_extends:
  "AsyncDuckDBConnection_send_loop c hdr env = Some y \<Longrightarrow> prefix (calls env) (calls (snd y))"
proof (induct c hdr env y rule: AsyncDuckDBConnection_send_loop.raw_induct [rotated 1, consumes 1])
  case (1 loop c hdr env y)
  show ?case
  proof (cases hdr)
    case (Some h)
    with 1(2) show ?thesis by (auto simp: prefix_def)
  next
    case None
    show ?thesis
    proof (cases "detached_reply env (detached_checks env)")
      case True
      with None 1(2) show ?thesis by (auto simp: isDetached_def prefix_def)
    next
      case False
      show ?thesis
      proof (cases "poll_reply env (polls env)")
        case (Throws e)
        with None False 1(2) show ?thesis by (auto simp: isDetached_def pollPendingQuery_def prefix_def)
      next
        case (Returns hdr')
        with None False 1(2)
        have "loop c hdr' (emit (PollPendingQuery c) (emit IsDetached env)) = Some y"
          by (simp add: isDetached_def pollPendingQuery_def)
        then have "prefix (calls (emit (PollPendingQuery c) (emit IsDetached env))) (calls (snd y))"
          by (rule 1(1))
        then show ?thesis by (auto simp: prefix_def)
      qed
    qed
  qed
qed

lemma send_loop_extends:
  "DuckDBConnection_send_loop c hdr env = Some y \<Longrightarrow> prefix (calls env) (calls (snd y))"
proof (induct c hdr env y rule: DuckDBConnection_send_loop.raw_induct [rotated 1, consumes 1])
  case (1 loop c hdr env y)
  show ?case
  proof (cases hdr)
    case (Some h)
    with 1(2) show ?thesis by (auto simp: prefix_def)
  next
    case None
    show ?thesis
    proof (cases "poll_reply env (polls env)")
      case (Throws e)
      with None 1(2) show ?thesis by (auto simp: pollPendingQuery_def Let_def prefix_def split: if_splits)
    next
      case (Returns hdr')
      with None 1(2)
      have "loop c hdr' (emit (PollPendingQuery c) env) = Some y"
        by (simp add: pollPendingQuery_def)
      then have "prefix (calls (emit (PollPendingQuery c) env)) (calls (snd y))"
        by (rule 1(1))
      then show ?thesis by (auto simp: prefix_def)
    qed
  qed
qed

lemma async_two_polls_header:
  assumes "start_reply env c text (case a of None \<Rightarrow> False | Some b \<Rightarrow> b) = Returns None"
    and "poll_reply env (polls env) = Returns None"
    and "poll_reply env (polls env + 1) = Returns (Some h)"
    and "\<forall>k. \<not> detached_reply env k"
  shows "AsyncDuckDBConnection_send c text a env =
           Some (Resolved (Stream (new_AsyncResultStreamIterator c h)),
                 env\<lparr>calls := calls env
                    @ [LoggerLog text, StartPendingQuery c text (case a of None \<Rightarrow> False | Some b \<Rightarrow> b),
                       IsDetached, PollPendingQuery c, IsDetached, PollPendingQuery c]\<rparr>)"
proof -
  let ?al = "case a of None \<Rightarrow> False | Some b \<Rightarrow> b"
  let ?e1 = "emit (StartPendingQuery c text ?al) (emit (LoggerLog text) env)"
  let ?e2 = "emit (PollPendingQuery c) (emit IsDetached ?e1)"
  let ?e3 = "emit (PollPendingQuery c) (emit IsDetached ?e2)"
  have "AsyncDuckDBConnection_send c text a env = AsyncDuckDBConnection_send_loop c None ?e1"
    using assms(1) by (simp add: AsyncDuckDBConnection_send_def startPendingQuery_def)
  also have "\<dots> = AsyncDuckDBConnection_send_loop c None ?e2"
    using assms(2,4) by (intro async_send_loop_poll) simp_all
  also have "\<dots> = AsyncDuckDBConnection_send_loop c (Some h) ?e3"
    using assms(3,4) by (intro async_send_loop_poll) simp_all
  finally have "AsyncDuckDBConnection_send c text a env =
      Some (Resolved (Stream (new_AsyncResultStreamIterator c h)), ?e3)"
    by (simp add: async_send_loop_header)
  then show ?thesis by (simp add: emit_def)
qed

lemma sync_two_polls_header:
  assumes "start_reply env c text (case a of None \<Rightarrow> False | Some b \<Rightarrow> b) = Returns None"
    and "poll_reply env (polls env) = Returns None"
    and "poll_reply env (polls env + 1) = Returns (Some h)"
  shows "DuckDBConnection_send c text a env =
           Some (Resolved (new_ResultStreamIterator c h),
                 env\<lparr>calls := calls env
                    @ [StartPendingQuery c text (case a of None \<Rightarrow> False | Some b \<Rightarrow> b),
                       PollPendingQuery c, PollPendingQuery c]\<rparr>)"
proof -
  let ?al = "case a of None \<Rightarrow> False | Some b \<Rightarrow> b"
  let ?s1 = "emit (StartPendingQuery c text ?al) env"
  let ?s2 = "emit (PollPendingQuery c) ?s1"
  let ?s3 = "emit (PollPendingQuery c) ?s2"
  have "DuckDBConnection_send c text a env = DuckDBConnection_send_loop c None ?s1"
    using assms(1) by (simp add: DuckDBConnection_send_def startPendingQuery_def)
  also have "\<dots> = DuckDBConnection_send_loop c None ?s2"
    using assms(2) by (intro send_loop_absent) simp
  also have "\<dots> = DuckDBConnection_send_loop c (Some h) ?s3"
    using assms(3) by (intro send_loop_absent) simp
  finally have "DuckDBConnection_send c text a env = Some (Resolved (new_ResultStreamIterator c h), ?s3)"
    by (simp add: send_loop_header)
  then show ?thesis by (simp add: emit_def)
qed

section \<open>The scenarios, evaluated\<close>

lemma scenario_C_facts:
  "start_reply scenario_C c text allow = Returns None"
  "poll_reply scenario_C k = Returns None"
  "detached_reply scenario_C k = (0 < k)"
  "calls scenario_C = []"
  "polls scenario_C = 0"
  "detached_checks scenario_C = 0"
  by (auto simp: scenario_C_def idle_bindings_def script_def polls_def detached_checks_def)

lemma scenario_B_facts:
  "start_reply scenario_B c text allow = Returns None"
  "poll_reply scenario_B 0 = Returns None"
  "poll_reply scenario_B (Suc 0) = Returns (Some hdr10)"
  "detached_reply scenario_B k = False"
  "calls scenario_B = []"
  "polls scenario_B = 0"
  by (auto simp: scenario_B_def idle_bindings_def script_def polls_def)

section \<open>Claims about send\<close>

text \<open>
  C1, as stated, fails. In scenario C (the start and the first poll return absent, and the
  link is then found detached) \<open>AsyncDuckDBConnection.send\<close> resolves to \<open>undefined\<close>: the
  promise is not rejected, so no failure reaches the caller.
\<close>

theorem send_detached_not_surfaced:
  "map_option fst (AsyncDuckDBConnection_send 1 ''SELECT 1'' None scenario_C) = Some (Resolved Undefined)
   \<and> map_option (is_rejected \<circ> fst) (AsyncDuckDBConnection_send 1 ''SELECT 1'' None scenario_C) = Some False"
proof -
  have "AsyncDuckDBConnection_send 1 ''SELECT 1'' None scenario_C =
          Some (Resolved Undefined,
                scenario_C\<lparr>calls := calls scenario_C
                   @ [LoggerLog ''SELECT 1'', StartPendingQuery 1 ''SELECT 1'' (case None of None \<Rightarrow> False | Some b \<Rightarrow> b)]
                   @ concat (replicate 1 [IsDetached, PollPendingQuery 1])
                   @ [IsDetached, ConsoleError ''cannot send a message since the worker is not set!'']\<rparr>)"
    by (rule async_send_detached) (simp_all add: scenario_C_facts)
  then show ?thesis by simp
qed

text \<open>
  C1, amended. When \<open>startPendingQuery\<close> and the first \<open>k\<close> polls return absent and
  \<open>isDetached()\<close> is then true, \<open>AsyncDuckDBConnection.send\<close> polls no further, constructs no
  iterator, writes the message \<open>cannot send a message since the worker is not set!\<close> to the
  console and resolves to \<open>undefined\<close>.
\<close>

theorem send_detached_resolves_undefined:
  assumes "start_reply env c text (case a of None \<Rightarrow> False | Some b \<Rightarrow> b) = Returns None"
    and "\<forall>j<k. poll_reply env (polls env + j) = Returns None"
    and "\<forall>j<k. \<not> detached_reply env (detached_checks env + j)"
    and "detached_reply env (detached_checks env + k)"
  shows "AsyncDuckDBConnection_send c text a env =
           Some (Resolved Undefined,
                 env\<lparr>calls := calls env
                    @ [LoggerLog text, StartPendingQuery c text (case a of None \<Rightarrow> False | Some b \<Rightarrow> b)]
                    @ concat (replicate k [IsDetached, PollPendingQuery c])
                    @ [IsDetached, ConsoleError ''cannot send a message since the worker is not set!'']\<rparr>)"
  using assms by (rule async_send_detached)

theorem send_detached_resolves_undefined_witness:
  "AsyncDuckDBConnection_send 1 ''SELECT 1'' None scenario_C =
     Some (Resolved Undefined,
           scenario_C\<lparr>calls := [LoggerLog ''SELECT 1'', StartPendingQuery 1 ''SELECT 1'' False,
              IsDetached, PollPendingQuery 1, IsDetached,
              ConsoleError ''cannot send a message since the worker is not set!'']\<rparr>)"
proof -
  have a: "start_reply scenario_C 1 ''SELECT 1'' (case None of None \<Rightarrow> False | Some b \<Rightarrow> b) = Returns None"
    by (simp add: scenario_C_facts)
  have b: "\<forall>j<1. poll_reply scenario_C (polls scenario_C + j) = Returns None"
    by (simp add: scenario_C_facts)
  have c: "\<forall>j<1. \<not> detached_reply scenario_C (detached_checks scenario_C + j)"
    by (simp add: scenario_C_facts)
  have d: "detached_reply scenario_C (detached_checks scenario_C + 1)"
    by (simp add: scenario_C_facts)
  show ?thesis using send_detached_resolves_undefined [OF a b c d] by (simp add: scenario_C_facts)
qed

text \<open>
  C8. When \<open>startPendingQuery\<close> and the first poll return absent, the second poll returns the
  header \<open>h\<close>, and \<open>isDetached()\<close> is false throughout, both variants of \<open>send\<close> return an
  iterator over \<open>h\<close> after exactly two calls of \<open>pollPendingQuery\<close>.
\<close>

theorem send_two_polls:
  assumes "start_reply env c text (case a of None \<Rightarrow> False | Some b \<Rightarrow> b) = Returns None"
    and "poll_reply env (polls env) = Returns None"
    and "poll_reply env (polls env + 1) = Returns (Some h)"
    and "\<forall>k. \<not> detached_reply env k"
  shows "AsyncDuckDBConnection_send c text a env =
           Some (Resolved (Stream (new_AsyncResultStreamIterator c h)),
                 env\<lparr>calls := calls env
                    @ [LoggerLog text, StartPendingQuery c text (case a of None \<Rightarrow> False | Some b \<Rightarrow> b),
                       IsDetached, PollPendingQuery c, IsDetached, PollPendingQuery c]\<rparr>)
         \<and> DuckDBConnection_send c text a env =
           Some (Resolved (new_ResultStreamIterator c h),
                 env\<lparr>calls := calls env
                    @ [StartPendingQuery c text (case a of None \<Rightarrow> False | Some b \<Rightarrow> b),
                       PollPendingQuery c, PollPendingQuery c]\<rparr>)
         \<and> length (filter is_poll
               [LoggerLog text, StartPendingQuery c text (case a of None \<Rightarrow> False | Some b \<Rightarrow> b),
                IsDetached, PollPendingQuery c, IsDetached, PollPendingQuery c]) = 2
         \<and> length (filter is_poll
               [StartPendingQuery c text (case a of None \<Rightarrow> False | Some b \<Rightarrow> b),
                PollPendingQuery c, PollPendingQuery c]) = 2"
  using async_two_polls_header [OF assms(1,2,3,4)] sync_two_polls_header [OF assms(1,2,3)]
  by simp

theorem send_two_polls_witness:
  "AsyncDuckDBConnection_send 1 ''SELECT 1'' (Some True) scenario_B =
     Some (Resolved (Stream (new_AsyncResultStreamIterator 1 hdr10)),
           scenario_B\<lparr>calls := [LoggerLog ''SELECT 1'', StartPendingQuery 1 ''SELECT 1'' True,
              IsDetached, PollPendingQuery 1, IsDetached, PollPendingQuery 1]\<rparr>)
   \<and> DuckDBConnection_send 1 ''SELECT 1'' (Some True) scenario_B =
     Some (Resolved (new_ResultStreamIterator 1 hdr10),
           scenario_B\<lparr>calls := [StartPendingQuery 1 ''SELECT 1'' True,
              PollPendingQuery 1, PollPendingQuery 1]\<rparr>)"
proof -
  have a: "start_reply scenario_B 1 ''SELECT 1'' (case Some True of None \<Rightarrow> False | Some b \<Rightarrow> b) = Returns None"
    by (simp add: scenario_B_facts)
  have b: "poll_reply scenario_B (polls scenario_B) = Returns None"
    by (simp add: scenario_B_facts)
  have c: "poll_reply scenario_B (polls scenario_B + 1) = Returns (Some hdr10)"
    by (simp add: scenario_B_facts)
  have d: "\<forall>k. \<not> detached_reply scenario_B k"
    by (simp add: scenario_B_facts)
  show ?thesis using send_two_polls [OF a b c d] by (simp add: scenario_B_facts)
qed

text \<open>
  C10. In both variants, \<open>send\<close> without \<open>allowStreamResult\<close> is \<open>send\<close> with
  \<open>allowStreamResult = false\<close>, and whenever it returns, \<open>startPendingQuery\<close> has been called
  with \<open>false\<close>: right after the logger call in the suspending variant, and first of all in
  the direct one.
\<close>

theorem send_default_not_streaming:
  "AsyncDuckDBConnection_send c text None env = AsyncDuckDBConnection_send c text (Some False) env
   \<and> DuckDBConnection_send c text None env = DuckDBConnection_send c text (Some False) env
   \<and> (AsyncDuckDBConnection_send c text None env = Some (r, env') \<longrightarrow>
        prefix (calls env @ [LoggerLog text, StartPendingQuery c text False]) (calls env'))
   \<and> (DuckDBConnection_send c text None env = Some (r', env'') \<longrightarrow>
        prefix (calls env @ [StartPendingQuery c text False]) (calls env''))"
proof -
  have 1: "AsyncDuckDBConnection_send c text None env = AsyncDuckDBConnection_send c text (Some False) env"
    by (simp add: AsyncDuckDBConnection_send_def)
  have 2: "DuckDBConnection_send c text None env = DuckDBConnection_send c text (Some False) env"
    by (simp add: DuckDBConnection_send_def)
  have 3: "prefix (calls env @ [LoggerLog text, StartPendingQuery c text False]) (calls env')"
    if "AsyncDuckDBConnection_send c text None env = Some (r, env')"
  proof (cases "start_reply env c text False")
    case (Throws e)
    with that show ?thesis
      by (auto simp: AsyncDuckDBConnection_send_def startPendingQuery_def)
  next
    case (Returns hdr)
    with that have "AsyncDuckDBConnection_send_loop c hdr
        (emit (StartPendingQuery c text False) (emit (LoggerLog text) env)) = Some (r, env')"
      by (simp add: AsyncDuckDBConnection_send_def startPendingQuery_def)
    from async_send_loop_extends [OF this] show ?thesis by simp
  qed
  have 4: "prefix (calls env @ [StartPendingQuery c text False]) (calls env'')"
    if "DuckDBConnection_send c text None env = Some (r', env'')"
  proof (cases "start_reply env c text False")
    case (Throws e)
    with that show ?thesis
      by (auto simp: DuckDBConnection_send_def startPendingQuery_def)
  next
    case (Returns hdr)
    with that have "DuckDBConnection_send_loop c hdr
        (emit (StartPendingQuery c text False) env) = Some (r', env'')"
      by (simp add: DuckDBConnection_send_def startPendingQuery_def)
    from send_loop_extends [OF this] show ?thesis by simp
  qed
  from 1 2 3 4 show ?thesis by blast
qed

theorem send_default_not_streaming_witness:
  "AsyncDuckDBConnection_send 1 ''SELECT 1'' None scenario_B =
     Some (Resolved (Stream (new_AsyncResultStreamIterator 1 hdr10)),
           scenario_B\<lparr>calls := [LoggerLog ''SELECT 1'', StartPendingQuery 1 ''SELECT 1'' False,
              IsDetached, PollPendingQuery 1, IsDetached, PollPendingQuery 1]\<rparr>)
   \<and> DuckDBConnection_send 1 ''SELECT 1'' None scenario_B =
     Some (Resolved (new_ResultStreamIterator 1 hdr10),
           scenario_B\<lparr>calls := [StartPendingQuery 1 ''SELECT 1'' False,
              PollPendingQuery 1, PollPendingQuery 1]\<rparr>)
   \<and> AsyncDuckDBConnection_send 1 ''SELECT 1'' None scenario_B =
       AsyncDuckDBConnection_send 1 ''SELECT 1'' (Some False) scenario_B
   \<and> DuckDBConnection_send 1 ''SELECT 1'' None scenario_B =
       DuckDBConnection_send 1 ''SELECT 1'' (Some False) scenario_B
   \<and> prefix [LoggerLog ''SELECT 1'', StartPendingQuery 1 ''SELECT 1'' False]
        [LoggerLog ''SELECT 1'', StartPendingQuery 1 ''SELECT 1'' False,
         IsDetached, PollPendingQuery 1, IsDetached, PollPendingQuery 1]
   \<and> prefix [StartPendingQuery 1 ''SELECT 1'' False]
        [StartPendingQuery 1 ''SELECT 1'' False, PollPendingQuery 1, PollPendingQuery 1]"
proof -
  have a: "start_reply scenario_B 1 ''SELECT 1'' (case None of None \<Rightarrow> False | Some b \<Rightarrow> b) = Returns None"
    by (simp add: scenario_B_facts)
  have b: "poll_reply scenario_B (polls scenario_B) = Returns None"
    by (simp add: scenario_B_facts)
  have c: "poll_reply scenario_B (polls scenario_B + 1) = Returns (Some hdr10)"
    by (simp add: scenario_B_facts)
  have d: "\<forall>k. \<not> detached_reply scenario_B k"
    by (simp add: scenario_B_facts)
  have A: "AsyncDuckDBConnection_send 1 ''SELECT 1'' None scenario_B =
     Some (Resolved (Stream (new_AsyncResultStreamIterator 1 hdr10)),
           scenario_B\<lparr>calls := [LoggerLog ''SELECT 1'', StartPendingQuery 1 ''SELECT 1'' False,
              IsDetached, PollPendingQuery 1, IsDetached, PollPendingQuery 1]\<rparr>)"
    using async_two_polls_header [OF a b c d] by (simp add: scenario_B_facts)
  have B: "DuckDBConnection_send 1 ''SELECT 1'' None scenario_B =
     Some (Resolved (new_ResultStreamIterator 1 hdr10),
           scenario_B\<lparr>calls := [StartPendingQuery 1 ''SELECT 1'' False,
              PollPendingQuery 1, PollPendingQuery 1]\<rparr>)"
    using sync_two_polls_header [OF a b c] by (simp add: scenario_B_facts)
  show ?thesis
    using A B send_default_not_streaming [of 1 "''SELECT 1''" scenario_B
      "Resolved (Stream (new_AsyncResultStreamIterator 1 hdr10))"
      "scenario_B\<lparr>calls := [LoggerLog ''SELECT 1'', StartPendingQuery 1 ''SELECT 1'' False,
              IsDetached, PollPendingQuery 1, IsDetached, PollPendingQuery 1]\<rparr>"
      "Resolved (new_ResultStreamIterator 1 hdr10)"
      "scenario_B\<lparr>calls := [StartPendingQuery 1 ''SELECT 1'' False,
              PollPendingQuery 1, PollPendingQuery 1]\<rparr>"]
    by (simp add: scenario_B_facts)
qed

section \<open>The fetch loops of the iterators\<close>

lemma fetch_loop_present:
  "fetch_reply env (fetches env) = Some b \<Longrightarrow>
   fetch_loop c env = Some (b, emit (FetchQueryResults c) env)"
  by (subst fetch_loop.simps) (simp add: fetchQueryResults_def)

lemma fetch_loop_absent:
  "fetch_reply env (fetches env) = None \<Longrightarrow>
   fetch_loop c env = fetch_loop c (emit (FetchQueryResults c) env)"
  by (subst fetch_loop.simps) (simp add: fetchQueryResults_def)

lemma fetch_loop_returns:
  "(\<forall>j<k. fetch_reply env (fetches env + j) = None) \<Longrightarrow>
   fetch_reply env (fetches env + k) = Some b \<Longrightarrow>
   fetch_loop c env =
     Some (b, env\<lparr>calls := calls env @ replicate (Suc k) (FetchQueryResults c)\<rparr>)"
proof (induction k arbitrary: env)
  case 0
  then show ?case by (simp add: fetch_loop_present emit_def)
next
  case (Suc k)
  let ?env1 = "emit (FetchQueryResults c) env"
  from Suc.prems have a: "fetch_reply env (fetches env) = None" by auto
  have "\<forall>j<k. fetch_reply ?env1 (fetches ?env1 + j) = None" using Suc.prems(1) by auto
  moreover have "fetch_reply ?env1 (fetches ?env1 + k) = Some b" using Suc.prems(2) by simp
  ultimately have "fetch_loop c ?env1 =
      Some (b, ?env1\<lparr>calls := calls ?env1 @ replicate (Suc k) (FetchQueryResults c)\<rparr>)"
    by (rule Suc.IH)
  then show ?case using a by (simp add: fetch_loop_absent emit_def replicate_app_Cons_same)
qed

lemma async_fetch_loop_present:
  "async_fetch_loop c (Some b) env = Some (b, env)"
  by (subst async_fetch_loop.simps) simp

lemma async_fetch_loop_absent:
  "async_fetch_loop c None env =
     async_fetch_loop c (fetch_reply env (fetches env))
       (emit (FetchAwaited c) (emit (FetchQueryResults c) env))"
  by (subst async_fetch_loop.simps) (simp add: fetchQueryResults_def)

lemma async_fetch_loop_returns:
  "(\<forall>j<k. fetch_reply env (fetches env + j) = None) \<Longrightarrow>
   fetch_reply env (fetches env + k) = Some b \<Longrightarrow>
   async_fetch_loop c None env =
     Some (b, env\<lparr>calls := calls env
                @ concat (replicate (Suc k) [FetchQueryResults c, FetchAwaited c])\<rparr>)"
proof (induction k arbitrary: env)
  case 0
  then show ?case
    by (simp add: async_fetch_loop_absent async_fetch_loop_present emit_def)
next
  case (Suc k)
  let ?env1 = "emit (FetchAwaited c) (emit (FetchQueryResults c) env)"
  from Suc.prems have a: "fetch_reply env (fetches env) = None" by auto
  have "\<forall>j<k. fetch_reply ?env1 (fetches ?env1 + j) = None" using Suc.prems(1) by auto
  moreover have "fetch_reply ?env1 (fetches ?env1 + k) = Some b" using Suc.prems(2) by simp
  ultimately have "async_fetch_loop c None ?env1 =
      Some (b, ?env1\<lparr>calls := calls ?env1
                 @ concat (replicate (Suc k) [FetchQueryResults c, FetchAwaited c])\<rparr>)"
    by (rule Suc.IH)
  then show ?case using a
    by (subst async_fetch_loop_absent) (simp add: emit_def)
qed

section \<open>One call of next\<close>


lemma next_depleted:
  "\<not> first it \<Longrightarrow> depleted it \<Longrightarrow>
   ResultStreamIterator_next it env = Some (IteratorResult True None, it, env)"
  by (simp add: ResultStreamIterator_next_def)

lemma next_fetch:
  "\<not> first it \<Longrightarrow> \<not> depleted it \<Longrightarrow>
   ResultStreamIterator_next it env =
     (case fetch_loop (conn it) env of
        None \<Rightarrow> None
      | Some (b, env1) \<Rightarrow> Some (IteratorResult (b = []) (Some b), it\<lparr>depleted := (b = [])\<rparr>, env1))"
  by (simp add: ResultStreamIterator_next_def Let_def split: option.splits)

lemma next_not_first:
  "ResultStreamIterator_next it env = Some (r, it', env') \<Longrightarrow> \<not> first it'"
  by (auto simp: ResultStreamIterator_next_def Let_def split: if_splits option.splits)

lemma next_returns:
  assumes "\<not> first it" "\<not> depleted it"
    and "\<forall>j<k. fetch_reply env (fetches env + j) = None"
    and "fetch_reply env (fetches env + k) = Some b"
  shows "ResultStreamIterator_next it env =
     Some (IteratorResult (b = []) (Some b), it\<lparr>depleted := (b = [])\<rparr>,
           env\<lparr>calls := calls env @ replicate (Suc k) (FetchQueryResults (conn it))\<rparr>)"
  using assms(1,2) fetch_loop_returns [OF assms(3,4), of "conn it"]
  by (simp add: next_fetch)

lemma async_next_first:
  "first it \<Longrightarrow>
   AsyncResultStreamIterator_next it env =
     Some (IteratorResult False (Some (header it)), it\<lparr>first := False\<rparr>, env)"
  by (simp add: AsyncResultStreamIterator_next_def)

lemma async_next_depleted:
  "\<not> first it \<Longrightarrow> depleted it \<Longrightarrow>
   AsyncResultStreamIterator_next it env = Some (IteratorResult True None, it, env)"
  by (simp add: AsyncResultStreamIterator_next_def)

lemma async_next_not_first:
  "AsyncResultStreamIterator_next it env = Some (r, it', env') \<Longrightarrow> \<not> first it'"
  by (auto simp: AsyncResultStreamIterator_next_def Let_def fetchQueryResults_def
           split: if_splits option.splits prod.splits)

text \<open>What the rest of \<open>next\<close> does with the buffer that the loop has obtained.\<close>

lemma async_next_fetch:
  "\<not> first it \<Longrightarrow> \<not> depleted it \<Longrightarrow>
   AsyncResultStreamIterator_next it env =
     (case async_fetch_loop (conn it) (case inFlight it of None \<Rightarrow> None | Some p \<Rightarrow> p)
             (case inFlight it of None \<Rightarrow> env | Some p \<Rightarrow> emit (FetchAwaited (conn it)) env) of
        None \<Rightarrow> None
      | Some (b, env2) \<Rightarrow>
          if b = [] then Some (IteratorResult True (Some b), it\<lparr>depleted := True, inFlight := None\<rparr>, env2)
          else Some (IteratorResult False (Some b),
                     it\<lparr>depleted := False, inFlight := Some (fetch_reply env2 (fetches env2))\<rparr>,
                     emit (FetchQueryResults (conn it)) env2))"
  by (cases "inFlight it")
     (auto simp: AsyncResultStreamIterator_next_def Let_def fetchQueryResults_def
           split: option.splits)


lemma pending_None [simp]:
  "inFlight it = None \<Longrightarrow> pending it env k = fetch_reply env (fetches env + k)"
  by (simp add: pending_def)

lemma pending_Some_0 [simp]:
  "inFlight it = Some p \<Longrightarrow> pending it env 0 = p"
  by (simp add: pending_def)

lemma pending_Some_Suc [simp]:
  "inFlight it = Some p \<Longrightarrow> pending it env (Suc k) = fetch_reply env (fetches env + k)"
  by (simp add: pending_def)

lemma async_next_returns:
  assumes "\<not> first it" "\<not> depleted it"
    and "\<forall>j<k. pending it env j = None"
    and "pending it env k = Some b"
  shows "AsyncResultStreamIterator_next it env =
     Some (IteratorResult (b = []) (Some b),
           it\<lparr>depleted := (b = []),
              inFlight := (if b = [] then None
                           else Some (fetch_reply env
                                  (fetches env + (case inFlight it of None \<Rightarrow> Suc k | Some p \<Rightarrow> k))))\<rparr>,
           env\<lparr>calls := calls env
              @ (case inFlight it of None \<Rightarrow> [] | Some p \<Rightarrow> [FetchAwaited (conn it)])
              @ concat (replicate (case inFlight it of None \<Rightarrow> Suc k | Some p \<Rightarrow> k)
                          [FetchQueryResults (conn it), FetchAwaited (conn it)])
              @ (if b = [] then [] else [FetchQueryResults (conn it)])\<rparr>)"
proof (cases "inFlight it")
  case None
  have a: "\<forall>j<k. fetch_reply env (fetches env + j) = None" using assms(3) None by simp
  have b: "fetch_reply env (fetches env + k) = Some b" using assms(4) None by simp
  have f: "fetches (env\<lparr>calls := calls env
                @ concat (replicate (Suc k) [FetchQueryResults (conn it), FetchAwaited (conn it)])\<rparr>)
           = fetches env + Suc k"
    by (induction k) (simp_all add: fetches_def)
  show ?thesis
    using assms(1,2) None async_fetch_loop_returns [OF a b, of "conn it"] f
    by (simp add: async_next_fetch emit_def)
next
  case (Some p)
  show ?thesis
  proof (cases k)
    case 0
    with assms(4) Some have "p = Some b" by simp
    with assms(1,2) Some 0 show ?thesis
      by (simp add: async_next_fetch async_fetch_loop_present emit_def fetches_def)
  next
    case (Suc k')
    let ?env1 = "emit (FetchAwaited (conn it)) env"
    from assms(3) Some Suc have p: "p = None" by auto
    have a: "\<forall>j<k'. fetch_reply ?env1 (fetches ?env1 + j) = None"
    proof (intro allI impI)
      fix j assume "j < k'"
      then have "Suc j < k" using Suc by simp
      with assms(3) have "pending it env (Suc j) = None" by blast
      then show "fetch_reply ?env1 (fetches ?env1 + j) = None" using Some by simp
    qed
    have b: "fetch_reply ?env1 (fetches ?env1 + k') = Some b" using assms(4) Some Suc by simp
    have f: "fetches (?env1\<lparr>calls := calls ?env1
                @ concat (replicate (Suc k') [FetchQueryResults (conn it), FetchAwaited (conn it)])\<rparr>)
           = fetches env + Suc k'"
      by (induction k') (simp_all add: fetches_def)
    show ?thesis
      using assms(1,2) Some Suc p async_fetch_loop_returns [OF a b, of "conn it"] f
      by (simp add: async_next_fetch emit_def)
  qed
qed

lemma next_times_depleted:
  "\<not> first it \<Longrightarrow> depleted it \<Longrightarrow>
   next_times n it env = Some (replicate n (IteratorResult True None), it, env)"
  by (induction n) (simp_all add: next_depleted)

lemma async_next_times_depleted:
  "\<not> first it \<Longrightarrow> depleted it \<Longrightarrow>
   async_next_times n it env = Some (replicate n (IteratorResult True None), it, env)"
  by (induction n) (simp_all add: async_next_depleted)

lemma scenario_A_facts:
  "fetch_reply scenario_A 0 = Some chunk20"
  "fetch_reply scenario_A (Suc 0) = Some []"
  "calls scenario_A = []"
  "fetches scenario_A = 0"
  "chunk20 \<noteq> []"
  by (auto simp: scenario_A_def idle_bindings_def script_def fetches_def chunk20_def)

lemma scenario_A_slow_facts:
  "fetch_reply scenario_A_slow 0 = None"
  "fetch_reply scenario_A_slow (Suc 0) = Some chunk20"
  "fetch_reply scenario_A_slow (Suc (Suc 0)) = None"
  "fetch_reply scenario_A_slow (Suc (Suc (Suc 0))) = Some []"
  "calls scenario_A_slow = []"
  "fetches scenario_A_slow = 0"
  by (auto simp: scenario_A_slow_def idle_bindings_def script_def fetches_def)

lemma next_payload:
  "ResultStreamIterator_next it env = Some (r, it', env') \<Longrightarrow> \<not> first it \<Longrightarrow> \<not> depleted it \<Longrightarrow>
   \<exists>b. payload r = Some b \<and> is_done r = (b = [])"
  by (auto simp: next_fetch split: option.splits)

lemma async_next_payload:
  "AsyncResultStreamIterator_next it env = Some (r, it', env') \<Longrightarrow> \<not> first it \<Longrightarrow> \<not> depleted it \<Longrightarrow>
   \<exists>b. payload r = Some b \<and> is_done r = (b = [])"
  by (auto simp: async_next_fetch split: option.splits if_splits)

section \<open>Claims about one call of next and about prepared statements\<close>

text \<open>
  C2, as stated, fails. The call of \<open>next\<close> that emits the header of an
  \<open>AsyncResultStreamIterator\<close> returns with \<open>_inFlight\<close> still \<open>null\<close> and without any call of
  \<open>fetchQueryResults\<close>.
\<close>

theorem header_call_starts_no_fetch_counterexample:
  "AsyncResultStreamIterator_next (new_AsyncResultStreamIterator 1 hdr10) scenario_A
     = Some (IteratorResult False (Some hdr10),
             new_AsyncResultStreamIterator 1 hdr10\<lparr>first := False\<rparr>, scenario_A)
   \<and> inFlight (new_AsyncResultStreamIterator 1 hdr10\<lparr>first := False\<rparr>) = None
   \<and> filter is_fetch (calls scenario_A) = []"
  by (simp add: async_next_first new_AsyncResultStreamIterator_def scenario_A_facts)

text \<open>
  C2, amended. In the prefetching variant, the call of \<open>next\<close> that emits the header calls
  nothing on the bindings surface and leaves the in-flight placeholder \<open>null\<close>: when it
  returns, no fetch for the next chunk has been issued yet.
\<close>

theorem header_call_starts_no_fetch:
  "AsyncResultStreamIterator_next (new_AsyncResultStreamIterator c h) env
     = Some (IteratorResult False (Some h), new_AsyncResultStreamIterator c h\<lparr>first := False\<rparr>, env)
   \<and> inFlight (new_AsyncResultStreamIterator c h\<lparr>first := False\<rparr>) = None"
  by (simp add: async_next_first new_AsyncResultStreamIterator_def)

theorem header_call_starts_no_fetch_witness:
  "AsyncResultStreamIterator_next (new_AsyncResultStreamIterator 7 hdr10) scenario_A_slow
     = Some (IteratorResult False (Some hdr10),
             new_AsyncResultStreamIterator 7 hdr10\<lparr>first := False\<rparr>, scenario_A_slow)
   \<and> inFlight (new_AsyncResultStreamIterator 7 hdr10\<lparr>first := False\<rparr>) = None"
  using header_call_starts_no_fetch [of 7 hdr10 scenario_A_slow] by simp

text \<open>
  C6. In both variants, once a call of \<open>next\<close> has left the iterator depleted, each further
  call of \<open>next\<close>, and so any number \<open>n\<close> of them in a row, returns \<open>done = true\<close> with the
  value \<open>null\<close> and leaves the iterator and the bindings, the log of calls included, as they
  were.
\<close>

theorem next_after_depletion:
  "(ResultStreamIterator_next it env = Some (r, it', env') \<and> depleted it' \<longrightarrow>
      ResultStreamIterator_next it' env' = Some (IteratorResult True None, it', env')
      \<and> next_times n it' env' = Some (replicate n (IteratorResult True None), it', env'))
   \<and> (AsyncResultStreamIterator_next ait aenv = Some (ar, ait', aenv') \<and> depleted ait' \<longrightarrow>
      AsyncResultStreamIterator_next ait' aenv' = Some (IteratorResult True None, ait', aenv')
      \<and> async_next_times n ait' aenv' = Some (replicate n (IteratorResult True None), ait', aenv'))"
  using next_not_first [of it env r it' env'] async_next_not_first [of ait aenv ar ait' aenv']
  by (simp add: next_depleted async_next_depleted next_times_depleted async_next_times_depleted)

theorem next_after_depletion_witness:
  "ResultStreamIterator_next (new_ResultStreamIterator 1 hdr10\<lparr>first := False\<rparr>)
       (scenario_A\<lparr>calls := [FetchQueryResults 1]\<rparr>)
     = Some (IteratorResult True (Some []),
             new_ResultStreamIterator 1 hdr10\<lparr>first := False, depleted := True\<rparr>,
             scenario_A\<lparr>calls := [FetchQueryResults 1, FetchQueryResults 1]\<rparr>)
   \<and> next_times 3 (new_ResultStreamIterator 1 hdr10\<lparr>first := False, depleted := True\<rparr>)
         (scenario_A\<lparr>calls := [FetchQueryResults 1, FetchQueryResults 1]\<rparr>)
     = Some ([IteratorResult True None, IteratorResult True None, IteratorResult True None],
             new_ResultStreamIterator 1 hdr10\<lparr>first := False, depleted := True\<rparr>,
             scenario_A\<lparr>calls := [FetchQueryResults 1, FetchQueryResults 1]\<rparr>)
   \<and> AsyncResultStreamIterator_next
         (new_AsyncResultStreamIterator 1 hdr10\<lparr>first := False, inFlight := Some (Some [])\<rparr>)
         (scenario_A\<lparr>calls := [FetchQueryResults 1, FetchAwaited 1, FetchQueryResults 1]\<rparr>)
     = Some (IteratorResult True (Some []),
             new_AsyncResultStreamIterator 1 hdr10\<lparr>first := False, depleted := True\<rparr>,
             scenario_A\<lparr>calls := [FetchQueryResults 1, FetchAwaited 1, FetchQueryResults 1,
                                    FetchAwaited 1]\<rparr>)
   \<and> async_next_times 3 (new_AsyncResultStreamIterator 1 hdr10\<lparr>first := False, depleted := True\<rparr>)
         (scenario_A\<lparr>calls := [FetchQueryResults 1, FetchAwaited 1, FetchQueryResults 1,
                                FetchAwaited 1]\<rparr>)
     = Some ([IteratorResult True None, IteratorResult True None, IteratorResult True None],
             new_AsyncResultStreamIterator 1 hdr10\<lparr>first := False, depleted := True\<rparr>,
             scenario_A\<lparr>calls := [FetchQueryResults 1, FetchAwaited 1, FetchQueryResults 1,
                                    FetchAwaited 1]\<rparr>)"
proof -
  let ?it = "new_ResultStreamIterator 1 hdr10\<lparr>first := False\<rparr>"
  let ?env = "scenario_A\<lparr>calls := [FetchQueryResults 1]\<rparr>"
  let ?ait = "new_AsyncResultStreamIterator 1 hdr10\<lparr>first := False, inFlight := Some (Some [])\<rparr>"
  let ?aenv = "scenario_A\<lparr>calls := [FetchQueryResults 1, FetchAwaited 1, FetchQueryResults 1]\<rparr>"
  have s: "ResultStreamIterator_next ?it ?env
     = Some (IteratorResult True (Some []),
             new_ResultStreamIterator 1 hdr10\<lparr>first := False, depleted := True\<rparr>,
             scenario_A\<lparr>calls := [FetchQueryResults 1, FetchQueryResults 1]\<rparr>)"
    using next_returns [of ?it 0 ?env "[]"]
    by (simp add: new_ResultStreamIterator_def fetches_def scenario_A_facts)
  have a: "AsyncResultStreamIterator_next ?ait ?aenv
     = Some (IteratorResult True (Some []),
             new_AsyncResultStreamIterator 1 hdr10\<lparr>first := False, depleted := True\<rparr>,
             scenario_A\<lparr>calls := [FetchQueryResults 1, FetchAwaited 1, FetchQueryResults 1,
                                    FetchAwaited 1]\<rparr>)"
    using async_next_returns [of ?ait 0 ?aenv "[]"]
    by (simp add: new_AsyncResultStreamIterator_def)
  show ?thesis
    using s a
      next_after_depletion [of ?it ?env "IteratorResult True (Some [])"
        "new_ResultStreamIterator 1 hdr10\<lparr>first := False, depleted := True\<rparr>"
        "scenario_A\<lparr>calls := [FetchQueryResults 1, FetchQueryResults 1]\<rparr>" 3
        ?ait ?aenv "IteratorResult True (Some [])"
        "new_AsyncResultStreamIterator 1 hdr10\<lparr>first := False, depleted := True\<rparr>"
        "scenario_A\<lparr>calls := [FetchQueryResults 1, FetchAwaited 1, FetchQueryResults 1,
                                    FetchAwaited 1]\<rparr>"]
    by (simp add: new_ResultStreamIterator_def new_AsyncResultStreamIterator_def numeral_3_eq_3)
qed

text \<open>
  C7. A call of \<open>next\<close> on an iterator that is neither fresh nor depleted fetches again after
  each absent answer: when the first \<open>k\<close> answers it consumes are absent and the next one is
  the buffer \<open>b\<close>, it returns \<open>b\<close> (with \<open>done\<close> exactly when \<open>b\<close> is empty), after \<open>k + 1\<close>
  fetches in the direct variant; the prefetching variant first consumes the fetch it holds
  in flight. Whenever such a call returns, its value is not absent.
\<close>

theorem next_retries_absent:
  "(\<not> first it \<and> \<not> depleted it \<and> (\<forall>j<k. fetch_reply env (fetches env + j) = None)
      \<and> fetch_reply env (fetches env + k) = Some b \<longrightarrow>
      ResultStreamIterator_next it env =
        Some (IteratorResult (b = []) (Some b), it\<lparr>depleted := (b = [])\<rparr>,
              env\<lparr>calls := calls env @ replicate (Suc k) (FetchQueryResults (conn it))\<rparr>))
   \<and> (\<not> first ait \<and> \<not> depleted ait \<and> (\<forall>j<k. pending ait aenv j = None)
      \<and> pending ait aenv k = Some b \<longrightarrow>
      AsyncResultStreamIterator_next ait aenv =
        Some (IteratorResult (b = []) (Some b),
              ait\<lparr>depleted := (b = []),
                 inFlight := (if b = [] then None
                              else Some (fetch_reply aenv
                                     (fetches aenv + (case inFlight ait of None \<Rightarrow> Suc k | Some p \<Rightarrow> k))))\<rparr>,
              aenv\<lparr>calls := calls aenv
                 @ (case inFlight ait of None \<Rightarrow> [] | Some p \<Rightarrow> [FetchAwaited (conn ait)])
                 @ concat (replicate (case inFlight ait of None \<Rightarrow> Suc k | Some p \<Rightarrow> k)
                             [FetchQueryResults (conn ait), FetchAwaited (conn ait)])
                 @ (if b = [] then [] else [FetchQueryResults (conn ait)])\<rparr>))
   \<and> (\<not> first it \<and> \<not> depleted it \<and> ResultStreamIterator_next it env = Some (r, it', env') \<longrightarrow>
        payload r \<noteq> None)
   \<and> (\<not> first ait \<and> \<not> depleted ait \<and> AsyncResultStreamIterator_next ait aenv = Some (ar, ait', aenv') \<longrightarrow>
        payload ar \<noteq> None)"
proof (intro conjI impI)
  assume "\<not> first it \<and> \<not> depleted it \<and> (\<forall>j<k. fetch_reply env (fetches env + j) = None)
      \<and> fetch_reply env (fetches env + k) = Some b"
  then show "ResultStreamIterator_next it env =
        Some (IteratorResult (b = []) (Some b), it\<lparr>depleted := (b = [])\<rparr>,
              env\<lparr>calls := calls env @ replicate (Suc k) (FetchQueryResults (conn it))\<rparr>)"
    by (intro next_returns) simp_all
next
  assume "\<not> first ait \<and> \<not> depleted ait \<and> (\<forall>j<k. pending ait aenv j = None)
      \<and> pending ait aenv k = Some b"
  then show "AsyncResultStreamIterator_next ait aenv =
        Some (IteratorResult (b = []) (Some b),
              ait\<lparr>depleted := (b = []),
                 inFlight := (if b = [] then None
                              else Some (fetch_reply aenv
                                     (fetches aenv + (case inFlight ait of None \<Rightarrow> Suc k | Some p \<Rightarrow> k))))\<rparr>,
              aenv\<lparr>calls := calls aenv
                 @ (case inFlight ait of None \<Rightarrow> [] | Some p \<Rightarrow> [FetchAwaited (conn ait)])
                 @ concat (replicate (case inFlight ait of None \<Rightarrow> Suc k | Some p \<Rightarrow> k)
                             [FetchQueryResults (conn ait), FetchAwaited (conn ait)])
                 @ (if b = [] then [] else [FetchQueryResults (conn ait)])\<rparr>)"
    by (intro async_next_returns) simp_all
next
  assume "\<not> first it \<and> \<not> depleted it \<and> ResultStreamIterator_next it env = Some (r, it', env')"
  then show "payload r \<noteq> None" using next_payload [of it env r it' env'] by auto
next
  assume "\<not> first ait \<and> \<not> depleted ait \<and> AsyncResultStreamIterator_next ait aenv = Some (ar, ait', aenv')"
  then show "payload ar \<noteq> None" using async_next_payload [of ait aenv ar ait' aenv'] by auto
qed

theorem next_retries_absent_witness:
  "ResultStreamIterator_next (new_ResultStreamIterator 1 hdr10\<lparr>first := False\<rparr>) scenario_A_slow
     = Some (IteratorResult False (Some chunk20),
             new_ResultStreamIterator 1 hdr10\<lparr>first := False\<rparr>,
             scenario_A_slow\<lparr>calls := [FetchQueryResults 1, FetchQueryResults 1]\<rparr>)
   \<and> AsyncResultStreamIterator_next (new_AsyncResultStreamIterator 1 hdr10\<lparr>first := False\<rparr>)
         scenario_A_slow
     = Some (IteratorResult False (Some chunk20),
             new_AsyncResultStreamIterator 1 hdr10\<lparr>first := False, inFlight := Some None\<rparr>,
             scenario_A_slow\<lparr>calls := [FetchQueryResults 1, FetchAwaited 1, FetchQueryResults 1,
                FetchAwaited 1, FetchQueryResults 1]\<rparr>)
   \<and> payload (IteratorResult False (Some chunk20)) \<noteq> None"
proof -
  let ?it = "new_ResultStreamIterator 1 hdr10\<lparr>first := False\<rparr>"
  let ?ait = "new_AsyncResultStreamIterator 1 hdr10\<lparr>first := False\<rparr>"
  have c: "chunk20 \<noteq> []" by (simp add: chunk20_def)
  have 1: "\<not> first ?it \<and> \<not> depleted ?it
      \<and> (\<forall>j<1. fetch_reply scenario_A_slow (fetches scenario_A_slow + j) = None)
      \<and> fetch_reply scenario_A_slow (fetches scenario_A_slow + 1) = Some chunk20"
    by (simp add: new_ResultStreamIterator_def scenario_A_slow_facts)
  have 2: "\<not> first ?ait \<and> \<not> depleted ?ait
      \<and> (\<forall>j<1. pending ?ait scenario_A_slow j = None)
      \<and> pending ?ait scenario_A_slow 1 = Some chunk20"
    by (simp add: new_AsyncResultStreamIterator_def scenario_A_slow_facts)
  from next_retries_absent [of ?it 1 scenario_A_slow chunk20 ?ait scenario_A_slow
      "IteratorResult False (Some chunk20)" ?it
      "scenario_A_slow\<lparr>calls := [FetchQueryResults 1, FetchQueryResults 1]\<rparr>"
      "IteratorResult False (Some chunk20)"
      "?ait\<lparr>inFlight := Some None\<rparr>"
      "scenario_A_slow\<lparr>calls := [FetchQueryResults 1, FetchAwaited 1, FetchQueryResults 1,
                FetchAwaited 1, FetchQueryResults 1]\<rparr>"] 1 2
  show ?thesis
    by (simp add: c new_AsyncResultStreamIterator_def new_ResultStreamIterator_def
          scenario_A_slow_facts numeral_2_eq_2)
qed

text \<open>
  C9. \<open>send\<close> of a prepared statement, in both variants, makes one call on the bindings
  surface, \<open>sendPrepared\<close>, and wraps the header it returns in a fresh iterator (or passes
  on what it throws): the log grows by this one event, so there is no \<open>startPendingQuery\<close>,
  \<open>pollPendingQuery\<close> or \<open>isDetached\<close>.
\<close>

theorem prepared_send_single_call:
  "PreparedStatement_send st params env =
     (case prepared_reply env (connectionId st) (statementId st) params of
        Throws e \<Rightarrow> Throws e
      | Returns h \<Rightarrow> Returns (new_ResultStreamIterator (connectionId st) h),
      env\<lparr>calls := calls env @ [SendPrepared (connectionId st) (statementId st) params]\<rparr>)
   \<and> AsyncPreparedStatement_send st params env =
     (case prepared_reply env (connectionId st) (statementId st) params of
        Throws e \<Rightarrow> Rejected e
      | Returns h \<Rightarrow> Resolved (new_AsyncResultStreamIterator (connectionId st) h),
      env\<lparr>calls := calls env @ [SendPrepared (connectionId st) (statementId st) params]\<rparr>)"
  by (simp add: PreparedStatement_send_def AsyncPreparedStatement_send_def sendPrepared_def emit_def
           split: reply.splits)

theorem prepared_send_single_call_witness:
  "PreparedStatement_send \<lparr>connectionId = 1, statementId = 5\<rparr> [JNum 42, JStr ''a''] scenario_prepared =
     (Returns (new_ResultStreamIterator 1 hdr10),
      scenario_prepared\<lparr>calls := [SendPrepared 1 5 [JNum 42, JStr ''a'']]\<rparr>)
   \<and> AsyncPreparedStatement_send \<lparr>connectionId = 1, statementId = 5\<rparr> [JNum 42, JStr ''a''] scenario_prepared =
     (Resolved (new_AsyncResultStreamIterator 1 hdr10),
      scenario_prepared\<lparr>calls := [SendPrepared 1 5 [JNum 42, JStr ''a'']]\<rparr>)"
  using prepared_send_single_call [of "\<lparr>connectionId = 1, statementId = 5\<rparr>" "[JNum 42, JStr ''a'']" scenario_prepared]
  by (simp add: scenario_prepared_def idle_bindings_def)

section \<open>Draining an iterator to its end\<close>






















section \<open>Outstanding fetches\<close>

lemma track_append:
  "track k (xs @ ys) = (case track k xs of None \<Rightarrow> None | Some k' \<Rightarrow> track k' ys)"
  by (induction xs arbitrary: k) simp_all

lemma track_pairs:
  "track 0 (concat (replicate n [FetchQueryResults c, FetchAwaited c])) = Some 0"
  by (induction n) simp_all

lemma track_outstanding:
  "track k p = Some j \<Longrightarrow> k \<le> 1 \<Longrightarrow> j \<le> 1 \<and> int j = int k + outstanding p"
proof (induction p arbitrary: k)
  case Nil
  then show ?case by (simp add: outstanding_def)
next
  case (Cons e p)
  show ?case
  proof (cases "is_fetch e")
    case True
    then have na: "\<not> is_await e" by (cases e) simp_all
    from Cons.prems True have k: "k = 0" and t: "track 1 p = Some j"
      by (auto split: if_splits)
    from Cons.IH [OF t] have "j \<le> 1 \<and> int j = 1 + outstanding p" by simp
    then show ?thesis using k True na by (simp add: outstanding_def)
  next
    case False
    show ?thesis
    proof (cases "is_await e")
      case True
      from Cons.prems False True have k: "k = 1" and t: "track 0 p = Some j"
        by (auto split: if_splits)
      from Cons.IH [OF t] have "j \<le> 1 \<and> int j = outstanding p" by simp
      then show ?thesis using k False True by (simp add: outstanding_def)
    next
      case na: False
      from Cons.prems False na have t: "track k p = Some j" by simp
      from Cons.IH [OF t Cons.prems(2)] show ?thesis using False na by (simp add: outstanding_def)
    qed
  qed
qed

lemma track_prefix:
  assumes "track k evs = Some k'" "prefix p evs"
  shows "\<exists>j. track k p = Some j"
proof -
  from assms(2) obtain s where "evs = p @ s" by (auto simp: prefix_def)
  with assms(1) show ?thesis by (auto simp: track_append split: option.splits)
qed

lemma track_bounds:
  assumes "track 0 evs = Some k'" "prefix p evs"
  shows "0 \<le> outstanding p \<and> outstanding p \<le> 1"
proof -
  from track_prefix [OF assms] obtain j where "track 0 p = Some j" by blast
  from track_outstanding [OF this] show ?thesis by auto
qed

lemma async_fetch_loop_log:
  "async_fetch_loop c buf env = Some y \<Longrightarrow>
   \<exists>n. snd y = env\<lparr>calls := calls env @ concat (replicate n [FetchQueryResults c, FetchAwaited c])\<rparr>"
proof (induct c buf env y rule: async_fetch_loop.raw_induct [rotated 1, consumes 1])
  case (1 loop c buf env y)
  show ?case
  proof (cases buf)
    case (Some b)
    with 1(2) have "snd y = env\<lparr>calls := calls env @ concat (replicate 0 [FetchQueryResults c, FetchAwaited c])\<rparr>"
      by auto
    then show ?thesis by blast
  next
    case None
    let ?env1 = "emit (FetchAwaited c) (emit (FetchQueryResults c) env)"
    from None 1(2) have "loop c (fetch_reply env (fetches env)) ?env1 = Some y"
      by (simp add: fetchQueryResults_def)
    from 1(1) [OF this] obtain n where
      "snd y = ?env1\<lparr>calls := calls ?env1 @ concat (replicate n [FetchQueryResults c, FetchAwaited c])\<rparr>"
      by blast
    then have "snd y = env\<lparr>calls := calls env @ concat (replicate (Suc n) [FetchQueryResults c, FetchAwaited c])\<rparr>"
      by (simp add: emit_def)
    then show ?thesis by blast
  qed
qed

lemma held_simps [simp]:
  "inFlight it = None \<Longrightarrow> held it = 0"
  "inFlight it = Some p \<Longrightarrow> held it = 1"
  by (simp_all add: held_def)

lemma async_next_log:
  assumes "AsyncResultStreamIterator_next it env = Some (r, it', env')"
  shows "\<exists>evs. env' = env\<lparr>calls := calls env @ evs\<rparr> \<and> track (held it) evs = Some (held it')"
proof (cases "first it \<or> depleted it")
  case True
  with assms have "env' = env\<lparr>calls := calls env @ []\<rparr> \<and> track (held it) [] = Some (held it')"
    by (auto simp: AsyncResultStreamIterator_next_def held_def split: if_splits)
  then show ?thesis by blast
next
  case False
  then have nf: "\<not> first it" "\<not> depleted it" by auto
  let ?c = "conn it"
  let ?pre = "case inFlight it of None \<Rightarrow> [] | Some p \<Rightarrow> [FetchAwaited ?c]"
  let ?env0 = "case inFlight it of None \<Rightarrow> env | Some p \<Rightarrow> emit (FetchAwaited ?c) env"
  let ?buf = "case inFlight it of None \<Rightarrow> None | Some p \<Rightarrow> p"
  have e0: "?env0 = env\<lparr>calls := calls env @ ?pre\<rparr>"
    by (simp add: emit_def split: option.splits)
  have t0: "track (held it) ?pre = Some 0"
    by (simp split: option.splits)
  from assms nf obtain b env2 where
    l: "async_fetch_loop ?c ?buf ?env0 = Some (b, env2)"
    and res: "(r, it', env') =
        (if b = [] then (IteratorResult True (Some b), it\<lparr>depleted := True, inFlight := None\<rparr>, env2)
         else (IteratorResult False (Some b),
               it\<lparr>depleted := False, inFlight := Some (fetch_reply env2 (fetches env2))\<rparr>,
               emit (FetchQueryResults ?c) env2))"
    by (auto simp: async_next_fetch split: option.splits if_splits)
  from async_fetch_loop_log [OF l] obtain n where
    e2: "env2 = ?env0\<lparr>calls := calls ?env0 @ concat (replicate n [FetchQueryResults ?c, FetchAwaited ?c])\<rparr>"
    by auto
  let ?mid = "concat (replicate n [FetchQueryResults ?c, FetchAwaited ?c])"
  have e2': "env2 = env\<lparr>calls := calls env @ ?pre @ ?mid\<rparr>"
    by (subst e2, subst (1 2) e0) simp
  have t2: "track (held it) (?pre @ ?mid) = Some 0"
    by (simp only: track_append t0 option.case track_pairs)
  show ?thesis
  proof (cases "b = []")
    case True
    with res e2' have "env' = env\<lparr>calls := calls env @ (?pre @ ?mid)\<rparr>" "held it' = 0"
      by auto
    with t2 show ?thesis by metis
  next
    case b: False
    with res e2' have "env' = env\<lparr>calls := calls env @ ((?pre @ ?mid) @ [FetchQueryResults ?c])\<rparr>"
      and h: "held it' = 1"
      by (auto simp: emit_def)
    moreover have "track (held it) ((?pre @ ?mid) @ [FetchQueryResults ?c]) = Some 1"
      by (simp only: track_append [of _ "?pre @ ?mid"] t2 option.case) simp
    ultimately show ?thesis by metis
  qed
qed

lemma async_next_times_log:
  "async_next_times n it env = Some (rs, it', env') \<Longrightarrow>
   \<exists>evs. env' = env\<lparr>calls := calls env @ evs\<rparr> \<and> track (held it) evs = Some (held it')"
proof (induction n arbitrary: it env rs)
  case 0
  then have "env' = env\<lparr>calls := calls env @ []\<rparr> \<and> track (held it) [] = Some (held it')" by simp
  then show ?case by blast
next
  case (Suc n)
  from Suc.prems obtain r it1 env1 rs' where
    a: "AsyncResultStreamIterator_next it env = Some (r, it1, env1)"
    and b: "async_next_times n it1 env1 = Some (rs', it', env')"
    by (auto split: option.splits)
  from async_next_log [OF a] obtain e1 where
    1: "env1 = env\<lparr>calls := calls env @ e1\<rparr>" "track (held it) e1 = Some (held it1)" by blast
  from Suc.IH [OF b] obtain e2 where
    2: "env' = env1\<lparr>calls := calls env1 @ e2\<rparr>" "track (held it1) e2 = Some (held it')" by blast
  have "env' = env\<lparr>calls := calls env @ (e1 @ e2)\<rparr>" using 1(1) 2(1) by simp
  moreover have "track (held it) (e1 @ e2) = Some (held it')"
    using 1(2) 2(2) by (simp add: track_append)
  ultimately show ?case by blast
qed

lemma async_next_prefetch:
  assumes "AsyncResultStreamIterator_next it env = Some (r, it', env')" "\<not> first it" "\<not> is_done r"
  shows "inFlight it' = Some (fetch_reply env' (fetches env' - 1))
         \<and> (\<exists>evs. calls env' = calls env @ evs @ [FetchQueryResults (conn it)])"
proof -
  have nd: "\<not> depleted it"
    using assms by (auto simp: async_next_depleted)
  let ?c = "conn it"
  let ?env0 = "case inFlight it of None \<Rightarrow> env | Some p \<Rightarrow> emit (FetchAwaited ?c) env"
  let ?buf = "case inFlight it of None \<Rightarrow> None | Some p \<Rightarrow> p"
  from assms(1,2) nd obtain b env2 where
    l: "async_fetch_loop ?c ?buf ?env0 = Some (b, env2)"
    and res: "(r, it', env') =
        (if b = [] then (IteratorResult True (Some b), it\<lparr>depleted := True, inFlight := None\<rparr>, env2)
         else (IteratorResult False (Some b),
               it\<lparr>depleted := False, inFlight := Some (fetch_reply env2 (fetches env2))\<rparr>,
               emit (FetchQueryResults ?c) env2))"
    by (auto simp: async_next_fetch split: option.splits if_splits)
  have b: "b \<noteq> []" using res assms(3) by (auto split: if_splits)
  have it': "inFlight it' = Some (fetch_reply env2 (fetches env2))"
    using res b by auto
  have env': "env' = emit (FetchQueryResults ?c) env2"
    using res b by auto
  from async_fetch_loop_log [OF l] obtain n where
    e2: "env2 = ?env0\<lparr>calls := calls ?env0 @ concat (replicate n [FetchQueryResults ?c, FetchAwaited ?c])\<rparr>"
    by auto
  have "\<exists>evs. calls env2 = calls env @ evs"
    by (subst e2) (simp split: option.splits)
  then obtain evs where "calls env2 = calls env @ evs" by blast
  then have "calls env' = calls env @ evs @ [FetchQueryResults ?c]" using env' by simp
  moreover have "inFlight it' = Some (fetch_reply env' (fetches env' - 1))"
    by (simp add: it' env')
  ultimately show ?thesis by blast
qed

lemma scenario_A_run:
  "AsyncResultStreamIterator_next (new_AsyncResultStreamIterator 1 hdr10) scenario_A =
     Some (IteratorResult False (Some hdr10),
           new_AsyncResultStreamIterator 1 hdr10\<lparr>first := False\<rparr>, scenario_A)"
  "AsyncResultStreamIterator_next (new_AsyncResultStreamIterator 1 hdr10\<lparr>first := False\<rparr>) scenario_A =
     Some (IteratorResult False (Some chunk20),
           new_AsyncResultStreamIterator 1 hdr10\<lparr>first := False, inFlight := Some (Some [])\<rparr>,
           scenario_A\<lparr>calls := [FetchQueryResults 1, FetchAwaited 1, FetchQueryResults 1]\<rparr>)"
  "AsyncResultStreamIterator_next
       (new_AsyncResultStreamIterator 1 hdr10\<lparr>first := False, inFlight := Some (Some [])\<rparr>)
       (scenario_A\<lparr>calls := [FetchQueryResults 1, FetchAwaited 1, FetchQueryResults 1]\<rparr>) =
     Some (IteratorResult True (Some []),
           new_AsyncResultStreamIterator 1 hdr10\<lparr>first := False, depleted := True\<rparr>,
           scenario_A\<lparr>calls := [FetchQueryResults 1, FetchAwaited 1, FetchQueryResults 1,
                                  FetchAwaited 1]\<rparr>)"
proof -
  show "AsyncResultStreamIterator_next (new_AsyncResultStreamIterator 1 hdr10) scenario_A =
     Some (IteratorResult False (Some hdr10),
           new_AsyncResultStreamIterator 1 hdr10\<lparr>first := False\<rparr>, scenario_A)"
    by (simp add: async_next_first new_AsyncResultStreamIterator_def)
  show "AsyncResultStreamIterator_next (new_AsyncResultStreamIterator 1 hdr10\<lparr>first := False\<rparr>) scenario_A =
     Some (IteratorResult False (Some chunk20),
           new_AsyncResultStreamIterator 1 hdr10\<lparr>first := False, inFlight := Some (Some [])\<rparr>,
           scenario_A\<lparr>calls := [FetchQueryResults 1, FetchAwaited 1, FetchQueryResults 1]\<rparr>)"
    using async_next_returns [of "new_AsyncResultStreamIterator 1 hdr10\<lparr>first := False\<rparr>" 0 scenario_A chunk20]
    by (simp add: new_AsyncResultStreamIterator_def scenario_A_facts)
  show "AsyncResultStreamIterator_next
       (new_AsyncResultStreamIterator 1 hdr10\<lparr>first := False, inFlight := Some (Some [])\<rparr>)
       (scenario_A\<lparr>calls := [FetchQueryResults 1, FetchAwaited 1, FetchQueryResults 1]\<rparr>) =
     Some (IteratorResult True (Some []),
           new_AsyncResultStreamIterator 1 hdr10\<lparr>first := False, depleted := True\<rparr>,
           scenario_A\<lparr>calls := [FetchQueryResults 1, FetchAwaited 1, FetchQueryResults 1,
                                  FetchAwaited 1]\<rparr>)"
    using async_next_returns [of "new_AsyncResultStreamIterator 1 hdr10\<lparr>first := False, inFlight := Some (Some [])\<rparr>" 0
        "scenario_A\<lparr>calls := [FetchQueryResults 1, FetchAwaited 1, FetchQueryResults 1]\<rparr>" "[]"]
    by (simp add: new_AsyncResultStreamIterator_def)
qed

section \<open>Calls of next that overlap\<close>

lemma async_next_finish_Finished:
  "async_next_finish (Finished res) it env = Some (res, it, env)"
  by (subst async_next_finish.simps) simp

lemma async_next_finish_Waiting:
  "async_next_finish (Waiting w) it env =
     (case async_next_resume w it env of (p', it', env') \<Rightarrow> async_next_finish p' it' env')"
  by (subst async_next_finish.simps) simp

lemma async_next_loop_Some:
  "async_next_loop (Some b) it env =
     (case async_next_tail b it env of (res, it', env') \<Rightarrow> (Finished res, it', env'))"
  by (simp add: async_next_loop_def)

lemma async_next_loop_None:
  "async_next_loop None it env =
     (Waiting (AwaitFetch (fetch_reply env (fetches env))), it, emit (FetchQueryResults (conn it)) env)"
  by (simp add: async_next_loop_def fetchQueryResults_def)

lemma async_next_finish_loop_None:
  "(case async_next_loop None it env of (p, it', env') \<Rightarrow> async_next_finish p it' env') =
   (case async_next_loop (fetch_reply env (fetches env)) it
           (emit (FetchAwaited (conn it)) (emit (FetchQueryResults (conn it)) env)) of
      (p, it', env') \<Rightarrow> async_next_finish p it' env')"
  by (simp add: async_next_loop_None async_next_finish_Waiting async_next_resume_def)

text \<open>When the loop of the whole call ends, so does the call cut at its awaits, alike.\<close>

lemma async_fetch_loop_finish:
  "async_fetch_loop c buf env = Some y \<Longrightarrow>
   \<forall>it. conn it = c \<longrightarrow>
     (case async_next_loop buf it env of (p, it', env') \<Rightarrow> async_next_finish p it' env')
       = Some (async_next_tail (fst y) it (snd y))"
proof (induct c buf env y rule: async_fetch_loop.raw_induct [rotated 1, consumes 1])
  case (1 loop c buf env y)
  show ?case
  proof (cases buf)
    case (Some b)
    with 1(2) have y: "y = (b, env)" by simp
    show ?thesis
      by (simp add: Some y async_next_loop_Some async_next_finish_Finished split: prod.splits)
  next
    case None
    let ?env1 = "emit (FetchAwaited c) (emit (FetchQueryResults c) env)"
    from None 1(2) have "loop c (fetch_reply env (fetches env)) ?env1 = Some y"
      by (simp add: fetchQueryResults_def)
    from 1(1) [OF this] have ih: "\<forall>it. conn it = c \<longrightarrow>
       (case async_next_loop (fetch_reply env (fetches env)) it ?env1 of
          (p, it', env') \<Rightarrow> async_next_finish p it' env')
         = Some (async_next_tail (fst y) it (snd y))"
      by simp
    show ?thesis
    proof (intro allI impI)
      fix it :: AsyncResultStreamIterator
      assume c: "conn it = c"
      have "(case async_next_loop buf it env of (p, it', env') \<Rightarrow> async_next_finish p it' env') =
         (case async_next_loop (fetch_reply env (fetches env)) it
                 (emit (FetchAwaited (conn it)) (emit (FetchQueryResults (conn it)) env)) of
            (p, it', env') \<Rightarrow> async_next_finish p it' env')"
        unfolding None by (rule async_next_finish_loop_None)
      also have "\<dots> = Some (async_next_tail (fst y) it (snd y))"
        using ih c by simp
      finally show "(case async_next_loop buf it env of (p, it', env') \<Rightarrow> async_next_finish p it' env')
         = Some (async_next_tail (fst y) it (snd y))" .
    qed
  qed
qed

text \<open>And when the call cut at its awaits ends, the loop of the whole call has ended.\<close>

lemma async_next_finish_loop:
  "async_next_finish p it env = Some z \<Longrightarrow>
   \<forall>buf it0 env0. (p, it, env) = async_next_loop buf it0 env0 \<longrightarrow>
     (\<exists>y. async_fetch_loop (conn it0) buf env0 = Some y)"
proof (induct p it env z rule: async_next_finish.raw_induct [rotated 1, consumes 1])
  case (1 finish p it env z)
  show ?case
  proof (intro allI impI)
    fix buf it0 env0
    assume e: "(p, it, env) = async_next_loop buf it0 env0"
    show "\<exists>y. async_fetch_loop (conn it0) buf env0 = Some y"
    proof (cases buf)
      case (Some b)
      then show ?thesis by (simp add: async_fetch_loop_present)
    next
      case None
      let ?r = "fetch_reply env0 (fetches env0)"
      let ?env1 = "emit (FetchAwaited (conn it0)) (emit (FetchQueryResults (conn it0)) env0)"
      from e None have p: "p = Waiting (AwaitFetch ?r)" and it: "it = it0"
        and env: "env = emit (FetchQueryResults (conn it0)) env0"
        by (simp_all add: async_next_loop_None)
      obtain p' it' env' where l: "async_next_loop ?r it0 ?env1 = (p', it', env')"
        by (cases "async_next_loop ?r it0 ?env1") auto
      from 1(2) p it env l have "finish p' it' env' = Some z"
        by (simp add: async_next_resume_def)
      from 1(1) [OF this] l have "\<exists>y. async_fetch_loop (conn it0) ?r ?env1 = Some y"
        by metis
      then show ?thesis
        unfolding None by (subst async_fetch_loop_absent)
    qed
  qed
qed

lemma async_next_loop_finish:
  "conn it = c \<Longrightarrow>
   (case async_next_loop buf it env of (p, it', env') \<Rightarrow> async_next_finish p it' env') =
     (case async_fetch_loop c buf env of
        None \<Rightarrow> None
      | Some (b, env2) \<Rightarrow> Some (async_next_tail b it env2))"
proof (cases "async_fetch_loop c buf env")
  case (Some y)
  assume "conn it = c"
  with async_fetch_loop_finish [OF Some] Some show ?thesis
    by (simp split: prod.splits)
next
  case None
  assume c: "conn it = c"
  obtain p it' env' where l: "async_next_loop buf it env = (p, it', env')"
    by (cases "async_next_loop buf it env") auto
  have "async_next_finish p it' env' = None"
  proof (rule ccontr)
    assume "async_next_finish p it' env' \<noteq> None"
    then obtain z where "async_next_finish p it' env' = Some z" by auto
    from async_next_finish_loop [OF this] l have "\<exists>y. async_fetch_loop (conn it) buf env = Some y"
      by metis
    with None c show False by simp
  qed
  with None l show ?thesis by simp
qed

text \<open>
  A call of \<open>next\<close> that no other call interrupts is \<open>AsyncResultStreamIterator_next\<close>.
\<close>

lemma async_next_uninterrupted:
  "(case async_next_begin it env of (p, it', env') \<Rightarrow> async_next_finish p it' env') =
     AsyncResultStreamIterator_next it env"
proof (cases "first it \<or> depleted it")
  case True
  then show ?thesis
    by (auto simp: async_next_begin_def AsyncResultStreamIterator_next_def async_next_finish_Finished)
next
  case False
  then have nf: "\<not> first it" "\<not> depleted it" by auto
  show ?thesis
  proof (cases "inFlight it")
    case None
    have "(case async_next_begin it env of (p, it', env') \<Rightarrow> async_next_finish p it' env') =
       (case async_next_loop None it env of (p, it', env') \<Rightarrow> async_next_finish p it' env')"
      using nf None by (simp add: async_next_begin_def)
    also have "\<dots> = (case async_fetch_loop (conn it) None env of
          None \<Rightarrow> None | Some (b, env2) \<Rightarrow> Some (async_next_tail b it env2))"
      by (rule async_next_loop_finish) simp
    also have "\<dots> = AsyncResultStreamIterator_next it env"
      using nf None
      by (auto simp: AsyncResultStreamIterator_next_def async_next_tail_def Let_def
                     fetchQueryResults_def split: option.splits)
    finally show ?thesis .
  next
    case (Some q)
    let ?it1 = "it\<lparr>inFlight := None\<rparr>"
    let ?env1 = "emit (FetchAwaited (conn it)) env"
    have "(case async_next_begin it env of (p, it', env') \<Rightarrow> async_next_finish p it' env') =
       (case async_next_loop q ?it1 ?env1 of (p, it', env') \<Rightarrow> async_next_finish p it' env')"
      using nf Some
      by (simp add: async_next_begin_def async_next_finish_Waiting async_next_resume_def)
    also have "\<dots> = (case async_fetch_loop (conn it) q ?env1 of
          None \<Rightarrow> None | Some (b, env2) \<Rightarrow> Some (async_next_tail b ?it1 env2))"
      by (rule async_next_loop_finish) simp
    also have "\<dots> = AsyncResultStreamIterator_next it env"
      using nf Some
      by (auto simp: AsyncResultStreamIterator_next_def async_next_tail_def Let_def
                     fetchQueryResults_def split: option.splits)
    finally show ?thesis .
  qed
qed

text \<open>
  C4, as stated, fails, in two ways. The call of \<open>next\<close> that returns the header, the first
  chunk, returns before any fetch is issued: the fetch for the chunk after it is not
  under way when it is handed to the caller. And the bound of one outstanding fetch holds
  only for calls made one after the other: when a second call of \<open>next\<close> begins while the
  first one still waits for its fetch, it finds \<open>_inFlight\<close> \<open>null\<close> as well and issues a
  fetch of its own, so that two are outstanding.
\<close>

theorem at_most_one_fetch_outstanding_counterexample:
  "AsyncResultStreamIterator_next (new_AsyncResultStreamIterator 1 hdr10) scenario_A =
     Some (IteratorResult False (Some hdr10),
           new_AsyncResultStreamIterator 1 hdr10\<lparr>first := False\<rparr>, scenario_A)
   \<and> outstanding (calls scenario_A) = 0
   \<and> async_next_begin (new_AsyncResultStreamIterator 1 hdr10\<lparr>first := False\<rparr>) scenario_A =
       (Waiting (AwaitFetch (Some chunk20)),
        new_AsyncResultStreamIterator 1 hdr10\<lparr>first := False\<rparr>,
        scenario_A\<lparr>calls := [FetchQueryResults 1]\<rparr>)
   \<and> async_next_begin (new_AsyncResultStreamIterator 1 hdr10\<lparr>first := False\<rparr>)
         (scenario_A\<lparr>calls := [FetchQueryResults 1]\<rparr>) =
       (Waiting (AwaitFetch (Some [])),
        new_AsyncResultStreamIterator 1 hdr10\<lparr>first := False\<rparr>,
        scenario_A\<lparr>calls := [FetchQueryResults 1, FetchQueryResults 1]\<rparr>)
   \<and> outstanding [FetchQueryResults 1, FetchQueryResults 1] = 2"
proof -
  have 1: "AsyncResultStreamIterator_next (new_AsyncResultStreamIterator 1 hdr10) scenario_A =
     Some (IteratorResult False (Some hdr10),
           new_AsyncResultStreamIterator 1 hdr10\<lparr>first := False\<rparr>, scenario_A)"
    by (simp add: async_next_first new_AsyncResultStreamIterator_def)
  have 2: "outstanding (calls scenario_A) = 0"
    by (simp add: outstanding_def scenario_A_facts)
  have 3: "async_next_begin (new_AsyncResultStreamIterator 1 hdr10\<lparr>first := False\<rparr>) scenario_A =
       (Waiting (AwaitFetch (Some chunk20)),
        new_AsyncResultStreamIterator 1 hdr10\<lparr>first := False\<rparr>,
        scenario_A\<lparr>calls := [FetchQueryResults 1]\<rparr>)"
    by (simp add: async_next_begin_def async_next_loop_None new_AsyncResultStreamIterator_def
          scenario_A_facts emit_def)
  have 4: "async_next_begin (new_AsyncResultStreamIterator 1 hdr10\<lparr>first := False\<rparr>)
         (scenario_A\<lparr>calls := [FetchQueryResults 1]\<rparr>) =
       (Waiting (AwaitFetch (Some [])),
        new_AsyncResultStreamIterator 1 hdr10\<lparr>first := False\<rparr>,
        scenario_A\<lparr>calls := [FetchQueryResults 1, FetchQueryResults 1]\<rparr>)"
    by (simp add: async_next_begin_def async_next_loop_None new_AsyncResultStreamIterator_def
          scenario_A_facts emit_def fetches_def)
  have 5: "outstanding [FetchQueryResults 1, FetchQueryResults 1] = 2"
    by (simp add: outstanding_def)
  from 1 2 3 4 5 show ?thesis by blast
qed

text \<open>
  C4, amended. In the prefetching variant, along the log of any number of calls of \<open>next\<close>
  on a fresh iterator, each made after the previous one has returned, the fetches issued
  and not yet awaited are never more than one. When a call of \<open>next\<close> other than the one
  that returns the header returns a chunk with \<open>done = false\<close>, the last thing it has done
  is to issue the next fetch, which the iterator holds in flight: the fetch for the chunk
  after this one is issued before this one is handed to the caller. The call that returns
  the header calls nothing on the bindings surface.
\<close>

theorem at_most_one_fetch_outstanding:
  "(async_next_times n (new_AsyncResultStreamIterator c h) env = Some (rs, it', env') \<longrightarrow>
      (\<exists>evs. calls env' = calls env @ evs
           \<and> (\<forall>p. prefix p evs \<longrightarrow> 0 \<le> outstanding p \<and> outstanding p \<le> 1)))
   \<and> (AsyncResultStreamIterator_next it env0 = Some (r, it1, env1) \<and> \<not> first it \<and> \<not> is_done r \<longrightarrow>
      inFlight it1 = Some (fetch_reply env1 (fetches env1 - 1))
      \<and> (\<exists>evs. calls env1 = calls env0 @ evs @ [FetchQueryResults (conn it)]))
   \<and> (first fit \<longrightarrow>
      AsyncResultStreamIterator_next fit fenv =
        Some (IteratorResult False (Some (header fit)), fit\<lparr>first := False\<rparr>, fenv))"
proof -
  have 1: "\<exists>evs. calls env' = calls env @ evs
           \<and> (\<forall>p. prefix p evs \<longrightarrow> 0 \<le> outstanding p \<and> outstanding p \<le> 1)"
    if a: "async_next_times n (new_AsyncResultStreamIterator c h) env = Some (rs, it', env')"
  proof -
    have "held (new_AsyncResultStreamIterator c h) = 0"
      by (simp add: new_AsyncResultStreamIterator_def)
    with async_next_times_log [OF a] obtain evs where
      e: "env' = env\<lparr>calls := calls env @ evs\<rparr>" and t: "track 0 evs = Some (held it')"
      by auto
    have "\<forall>p. prefix p evs \<longrightarrow> 0 \<le> outstanding p \<and> outstanding p \<le> 1"
      using track_bounds [OF t] by blast
    moreover have "calls env' = calls env @ evs" by (subst e) simp
    ultimately show ?thesis by blast
  qed
  have 2: "inFlight it1 = Some (fetch_reply env1 (fetches env1 - 1))
      \<and> (\<exists>evs. calls env1 = calls env0 @ evs @ [FetchQueryResults (conn it)])"
    if "AsyncResultStreamIterator_next it env0 = Some (r, it1, env1) \<and> \<not> first it \<and> \<not> is_done r"
    using that async_next_prefetch [of it env0 r it1 env1] by blast
  have 3: "AsyncResultStreamIterator_next fit fenv =
        Some (IteratorResult False (Some (header fit)), fit\<lparr>first := False\<rparr>, fenv)"
    if "first fit"
    using that by (rule async_next_first)
  from 1 2 3 show ?thesis by blast
qed

theorem at_most_one_fetch_outstanding_witness:
  "async_next_times 3 (new_AsyncResultStreamIterator 1 hdr10) scenario_A =
     Some ([IteratorResult False (Some hdr10), IteratorResult False (Some chunk20),
            IteratorResult True (Some [])],
           new_AsyncResultStreamIterator 1 hdr10\<lparr>first := False, depleted := True\<rparr>,
           scenario_A\<lparr>calls := [FetchQueryResults 1, FetchAwaited 1, FetchQueryResults 1,
                                  FetchAwaited 1]\<rparr>)
   \<and> outstanding [] = 0
   \<and> outstanding [FetchQueryResults 1] = 1
   \<and> outstanding [FetchQueryResults 1, FetchAwaited 1] = 0
   \<and> outstanding [FetchQueryResults 1, FetchAwaited 1, FetchQueryResults 1] = 1
   \<and> outstanding [FetchQueryResults 1, FetchAwaited 1, FetchQueryResults 1, FetchAwaited 1] = 0
   \<and> outstanding [FetchQueryResults 1, FetchAwaited 1, FetchQueryResults 1] \<le> 1
   \<and> inFlight (new_AsyncResultStreamIterator 1 hdr10\<lparr>first := False, inFlight := Some (Some [])\<rparr>)
       = Some (fetch_reply scenario_A 1)
   \<and> AsyncResultStreamIterator_next (new_AsyncResultStreamIterator 1 hdr10) scenario_A =
       Some (IteratorResult False (Some hdr10),
             new_AsyncResultStreamIterator 1 hdr10\<lparr>first := False\<rparr>, scenario_A)"
proof -
  let ?it0 = "new_AsyncResultStreamIterator 1 hdr10"
  let ?it1 = "?it0\<lparr>first := False\<rparr>"
  let ?it2 = "?it0\<lparr>first := False, inFlight := Some (Some [])\<rparr>"
  let ?it3 = "?it0\<lparr>first := False, depleted := True\<rparr>"
  let ?env2 = "scenario_A\<lparr>calls := [FetchQueryResults 1, FetchAwaited 1, FetchQueryResults 1]\<rparr>"
  let ?env3 = "scenario_A\<lparr>calls := [FetchQueryResults 1, FetchAwaited 1, FetchQueryResults 1,
                                  FetchAwaited 1]\<rparr>"
  let ?rs = "[IteratorResult False (Some hdr10), IteratorResult False (Some chunk20),
            IteratorResult True (Some [])]"
  have run: "async_next_times 3 ?it0 scenario_A = Some (?rs, ?it3, ?env3)"
    by (simp only: numeral_3_eq_3 async_next_times.simps scenario_A_run option.case prod.case)
  have step: "AsyncResultStreamIterator_next ?it1 scenario_A =
      Some (IteratorResult False (Some chunk20), ?it2, ?env2)
      \<and> \<not> first ?it1 \<and> \<not> is_done (IteratorResult False (Some chunk20))"
    using scenario_A_run(2) by (simp add: new_AsyncResultStreamIterator_def)
  note t = at_most_one_fetch_outstanding [of 3 1 hdr10 scenario_A ?rs ?it3 ?env3
      ?it1 scenario_A "IteratorResult False (Some chunk20)" ?it2 ?env2 ?it0 scenario_A]
  from t [THEN conjunct1] run obtain evs where
    e: "calls ?env3 = calls scenario_A @ evs"
    and b: "\<forall>p. prefix p evs \<longrightarrow> 0 \<le> outstanding p \<and> outstanding p \<le> 1"
    by blast
  from e have evs: "evs = [FetchQueryResults 1, FetchAwaited 1, FetchQueryResults 1, FetchAwaited 1]"
    by (simp add: scenario_A_facts)
  have "prefix [FetchQueryResults 1, FetchAwaited 1, FetchQueryResults 1] evs"
    by (simp add: evs)
  with b have le: "outstanding [FetchQueryResults 1, FetchAwaited 1, FetchQueryResults 1] \<le> 1"
    by blast
  from t [THEN conjunct2, THEN conjunct1] step
  have "inFlight ?it2 = Some (fetch_reply ?env2 (fetches ?env2 - 1))" by blast
  then have inf: "inFlight ?it2 = Some (fetch_reply scenario_A 1)"
    by (simp add: fetches_def)
  have "first ?it0" by (simp add: new_AsyncResultStreamIterator_def)
  with t [THEN conjunct2, THEN conjunct2]
  have "AsyncResultStreamIterator_next ?it0 scenario_A =
        Some (IteratorResult False (Some (header ?it0)), ?it1, scenario_A)" by blast
  then have hd: "AsyncResultStreamIterator_next ?it0 scenario_A =
        Some (IteratorResult False (Some hdr10), ?it1, scenario_A)"
    by (simp add: new_AsyncResultStreamIterator_def)
  show ?thesis using run le inf hd by (simp add: outstanding_def)
qed

end
